theory Spec2Isabelle
  imports Complex_Main
begin

section \<open>Centroid linkage wrapper: the model\<close>

text \<open>
  The development follows \<^verbatim>\<open>Sources/FastClusterWrapper/FastClusterWrapper.cpp\<close>.
  The header \<^verbatim>\<open>fastcluster_internal.hpp\<close> that the file includes is not among the
  sources: it declares \<^verbatim>\<open>t_float\<close>, \<^verbatim>\<open>t_index\<close>, \<^verbatim>\<open>MAX_INDEX\<close>, \<^verbatim>\<open>node\<close>,
  \<^verbatim>\<open>cluster_result\<close>, \<^verbatim>\<open>union_find\<close>, \<^verbatim>\<open>nan_error\<close> and the linkage engine.
\<close>

subsection \<open>Arithmetic of \<^verbatim>\<open>t_float\<close>\<close>

text \<open>
  \<^verbatim>\<open>t_float\<close> is a floating-point type declared in the absent header. The model takes the
  type and its operations as a parameter: a theorem that puts no condition on the
  operations holds of every arithmetic, rounding included. \<^verbatim>\<open>t_index\<close> is a signed integer
  type whose values are never negative on the paths modelled; it is a \<open>nat\<close>, and the places
  where the source subtracts below zero are pointed out.
\<close>

record 'f t_float_ops =
  f_add :: "'f \<Rightarrow> 'f \<Rightarrow> 'f"
  f_sub :: "'f \<Rightarrow> 'f \<Rightarrow> 'f"
  f_mul :: "'f \<Rightarrow> 'f \<Rightarrow> 'f"
  f_div :: "'f \<Rightarrow> 'f \<Rightarrow> 'f"
  f_less :: "'f \<Rightarrow> 'f \<Rightarrow> bool"
  f_neq :: "'f \<Rightarrow> 'f \<Rightarrow> bool"
  f_sqrt :: "'f \<Rightarrow> 'f"
  f_half :: "'f"
  f_of_index :: "nat \<Rightarrow> 'f"

text \<open>\<^verbatim>\<open>#define fc_isnan(X) ((X) != (X))\<close>\<close>

definition fc_isnan :: "'f t_float_ops \<Rightarrow> 'f \<Rightarrow> bool" where
  "fc_isnan ops X = f_neq ops X X"

subsection \<open>An arithmetic without rounding\<close>

text \<open>
  The extended reals with a NaN, computed exactly: the arithmetic on which the model is run
  at concrete inputs. A comparison with NaN is false, \<open>!=\<close> with NaN is true, and the
  undefined forms (\<open>\<infinity> - \<infinity>\<close>, \<open>0 * \<infinity>\<close>, \<open>0 / 0\<close>, \<open>\<infinity> / \<infinity>\<close>, the root of a
  negative number) are NaN. There is one zero.
\<close>

datatype xreal = Fin real | PInf | NInf | NaN

fun x_neg :: "xreal \<Rightarrow> xreal" where
  "x_neg (Fin a) = Fin (- a)"
| "x_neg PInf = NInf"
| "x_neg NInf = PInf"
| "x_neg NaN = NaN"

fun x_add :: "xreal \<Rightarrow> xreal \<Rightarrow> xreal" where
  "x_add NaN y = NaN"
| "x_add x NaN = NaN"
| "x_add (Fin a) (Fin b) = Fin (a + b)"
| "x_add PInf NInf = NaN"
| "x_add NInf PInf = NaN"
| "x_add PInf y = PInf"
| "x_add NInf y = NInf"
| "x_add (Fin a) y = y"

definition x_sub :: "xreal \<Rightarrow> xreal \<Rightarrow> xreal" where
  "x_sub x y = x_add x (x_neg y)"

fun x_sgn :: "xreal \<Rightarrow> int" where
  "x_sgn (Fin a) = (if a < 0 then - 1 else if a = 0 then 0 else 1)"
| "x_sgn PInf = 1"
| "x_sgn NInf = - 1"
| "x_sgn NaN = 0"

definition x_inf :: "int \<Rightarrow> xreal" where
  "x_inf s = (if s < 0 then NInf else if s = 0 then NaN else PInf)"

fun x_mul :: "xreal \<Rightarrow> xreal \<Rightarrow> xreal" where
  "x_mul NaN y = NaN"
| "x_mul x NaN = NaN"
| "x_mul (Fin a) (Fin b) = Fin (a * b)"
| "x_mul x y = x_inf (x_sgn x * x_sgn y)"

fun x_div :: "xreal \<Rightarrow> xreal \<Rightarrow> xreal" where
  "x_div NaN y = NaN"
| "x_div x NaN = NaN"
| "x_div (Fin a) (Fin b) = (if b = 0 then x_inf (x_sgn (Fin a)) else Fin (a / b))"
| "x_div (Fin a) y = Fin 0"
| "x_div x (Fin b) = (if b < 0 then x_neg x else x)"
| "x_div x y = NaN"

fun x_less :: "xreal \<Rightarrow> xreal \<Rightarrow> bool" where
  "x_less NaN y = False"
| "x_less x NaN = False"
| "x_less (Fin a) (Fin b) = (a < b)"
| "x_less x NInf = False"
| "x_less NInf y = True"
| "x_less PInf y = False"
| "x_less (Fin a) PInf = True"

fun x_neq :: "xreal \<Rightarrow> xreal \<Rightarrow> bool" where
  "x_neq NaN y = True"
| "x_neq x NaN = True"
| "x_neq x y = (x \<noteq> y)"

fun x_sqrt :: "xreal \<Rightarrow> xreal" where
  "x_sqrt (Fin a) = (if a < 0 then NaN else Fin (sqrt a))"
| "x_sqrt PInf = PInf"
| "x_sqrt NInf = NaN"
| "x_sqrt NaN = NaN"

definition exact_ops :: "xreal t_float_ops" where
  "exact_ops = \<lparr> f_add = x_add, f_sub = x_sub, f_mul = x_mul, f_div = x_div,
     f_less = x_less, f_neq = x_neq, f_sqrt = x_sqrt, f_half = Fin (1 / 2),
     f_of_index = (\<lambda>n. Fin (real n)) \<rparr>"

subsection \<open>\<^verbatim>\<open>struct CentroidDissimilarity\<close>\<close>

text \<open>
  The input matrix \<^verbatim>\<open>data\<close> is the list of its cells, row-major. A pointer into it or into
  \<^verbatim>\<open>centroidStorage\<close> is an offset, and \<^verbatim>\<open>p[k]\<close> reads the cell at offset plus \<open>k\<close>.
  A read or a write outside an array is undefined in the source; \<open>xs ! i\<close> and
  \<open>xs[i := v]\<close> say nothing useful there, so the theorems state the ranges they need, and the
  engine's interpreter below checks them before every call.
\<close>

record 'f CentroidDissimilarity =
  data :: "'f list"
  dimension :: nat
  count :: nat
  centroidStorage :: "'f list"
  members :: "nat list"

text \<open>
  The constructor: \<^verbatim>\<open>centroidStorage\<close> gets \<open>(sampleCount - 1) * dim\<close> zeros when
  \<open>sampleCount > 1\<close>, \<^verbatim>\<open>members\<close> gets \<open>2 * sampleCount - 1\<close> zeros when \<open>sampleCount > 0\<close>,
  and the loop sets the first \<open>count\<close> members to 1.
\<close>

definition new_CentroidDissimilarity ::
  "'f t_float_ops \<Rightarrow> 'f list \<Rightarrow> nat \<Rightarrow> nat \<Rightarrow> 'f CentroidDissimilarity" where
  "new_CentroidDissimilarity ops input sampleCount dm =
     \<lparr> data = input,
       dimension = dm,
       count = sampleCount,
       centroidStorage =
         replicate (if sampleCount > 1 then (sampleCount - 1) * dm else 0) (f_of_index ops 0),
       members =
         fold (\<lambda>i ms. ms[i := 1]) [0..<sampleCount]
           (replicate (if sampleCount > 0 then 2 * sampleCount - 1 else 0) 0) \<rparr>"

text \<open>
  \<^verbatim>\<open>basePointer(index)[k]\<close>, \<^verbatim>\<open>extendedPointer(index)[k]\<close> and the offset of
  \<^verbatim>\<open>centroidPointer(index)\<close> in \<^verbatim>\<open>centroidStorage\<close>. In \<^verbatim>\<open>centroidPointer\<close> the source
  computes \<open>index - count\<close> without a test; below \<open>count\<close> that is a negative offset.
\<close>

definition basePointer :: "'f CentroidDissimilarity \<Rightarrow> nat \<Rightarrow> nat \<Rightarrow> 'f" where
  "basePointer d index k = data d ! (index * dimension d + k)"

definition extendedPointer :: "'f CentroidDissimilarity \<Rightarrow> nat \<Rightarrow> nat \<Rightarrow> 'f" where
  "extendedPointer d index k =
     (if index < count d then basePointer d index k
      else centroidStorage d ! ((index - count d) * dimension d + k))"

definition centroidPointer :: "'f CentroidDissimilarity \<Rightarrow> nat \<Rightarrow> nat" where
  "centroidPointer d index = (index - count d) * dimension d"

text \<open>The accumulation loop of both distance functions, ascending in \<open>k\<close>.\<close>

definition sq_sum :: "'f t_float_ops \<Rightarrow> (nat \<Rightarrow> 'f) \<Rightarrow> (nat \<Rightarrow> 'f) \<Rightarrow> nat \<Rightarrow> 'f" where
  "sq_sum ops p_i p_j dm =
     fold (\<lambda>k sm. let diff = f_sub ops (p_i k) (p_j k) in f_add ops sm (f_mul ops diff diff))
       [0..<dm] (f_of_index ops 0)"

datatype exn = bad_alloc | nan_error | std_exception | non_std_throw

definition sqeuclidean ::
  "'f t_float_ops \<Rightarrow> bool \<Rightarrow> 'f CentroidDissimilarity \<Rightarrow> nat \<Rightarrow> nat \<Rightarrow> exn + 'f" where
  "sqeuclidean ops checkNaN d i j =
     (let sm = sq_sum ops (basePointer d i) (basePointer d j) (dimension d)
      in if checkNaN \<and> fc_isnan ops sm then Inl nan_error else Inr sm)"

definition sqeuclidean_extended ::
  "'f t_float_ops \<Rightarrow> 'f CentroidDissimilarity \<Rightarrow> nat \<Rightarrow> nat \<Rightarrow> exn + 'f" where
  "sqeuclidean_extended ops d i j =
     (let sm = sq_sum ops (extendedPointer d i) (extendedPointer d j) (dimension d)
      in if fc_isnan ops sm then Inl nan_error else Inr sm)"

text \<open>
  An index the object can be asked about: its member count exists and its \<open>dimension\<close>
  cells lie inside the array that holds them.
\<close>

definition in_range :: "'f CentroidDissimilarity \<Rightarrow> nat \<Rightarrow> bool" where
  "in_range d index =
     (index < length (members d) \<and>
      (if index < count d then index * dimension d + dimension d \<le> length (data d)
       else (index - count d) * dimension d + dimension d \<le> length (centroidStorage d)))"

text \<open>
  \<^verbatim>\<open>merge\<close>: the loop writes \<^verbatim>\<open>pn[k]\<close> for ascending \<open>k\<close> and reads \<^verbatim>\<open>pi[k]\<close>, \<^verbatim>\<open>pj[k]\<close> from
  the object as it is at that moment, so the model threads the object through the loop.
\<close>

definition merge_step ::
  "'f t_float_ops \<Rightarrow> nat \<Rightarrow> nat \<Rightarrow> nat \<Rightarrow> 'f \<Rightarrow> 'f \<Rightarrow> 'f \<Rightarrow> nat \<Rightarrow>
   'f CentroidDissimilarity \<Rightarrow> 'f CentroidDissimilarity" where
  "merge_step ops i j pn mi mj denom k d =
     d\<lparr> centroidStorage := (centroidStorage d)
          [pn + k := f_div ops
             (f_add ops (f_mul ops (extendedPointer d i k) mi)
                        (f_mul ops (extendedPointer d j k) mj)) denom] \<rparr>"

definition merge ::
  "'f t_float_ops \<Rightarrow> 'f CentroidDissimilarity \<Rightarrow> nat \<Rightarrow> nat \<Rightarrow> nat \<Rightarrow> 'f CentroidDissimilarity" where
  "merge ops d i j newNode =
     (let pn = centroidPointer d newNode;
          mi = f_of_index ops (members d ! i);
          mj = f_of_index ops (members d ! j);
          denom = f_add ops mi mj;
          d' = fold (merge_step ops i j pn mi mj denom) [0..<dimension d] d
      in d'\<lparr> members := (members d')[newNode := members d' ! i + members d' ! j] \<rparr>)"

definition merge_weighted_step ::
  "'f t_float_ops \<Rightarrow> nat \<Rightarrow> nat \<Rightarrow> nat \<Rightarrow> nat \<Rightarrow>
   'f CentroidDissimilarity \<Rightarrow> 'f CentroidDissimilarity" where
  "merge_weighted_step ops i j pn k d =
     d\<lparr> centroidStorage := (centroidStorage d)
          [pn + k := f_mul ops (f_half ops)
             (f_add ops (extendedPointer d i k) (extendedPointer d j k))] \<rparr>"

definition merge_weighted ::
  "'f t_float_ops \<Rightarrow> 'f CentroidDissimilarity \<Rightarrow> nat \<Rightarrow> nat \<Rightarrow> nat \<Rightarrow> 'f CentroidDissimilarity" where
  "merge_weighted ops d i j newNode =
     (let pn = centroidPointer d newNode;
          d' = fold (merge_weighted_step ops i j pn) [0..<dimension d] d
      in d'\<lparr> members := (members d')[newNode := members d' ! i + members d' ! j] \<rparr>)"

definition ward :: "'f t_float_ops \<Rightarrow> 'f CentroidDissimilarity \<Rightarrow> nat \<Rightarrow> nat \<Rightarrow> exn + 'f" where
  "ward ops d i j = sqeuclidean ops True d i j"

definition ward_initial :: "'f t_float_ops \<Rightarrow> 'f CentroidDissimilarity \<Rightarrow> nat \<Rightarrow> nat \<Rightarrow> exn + 'f" where
  "ward_initial ops d i j = sqeuclidean ops True d i j"

definition ward_initial_conversion :: "'f t_float_ops \<Rightarrow> 'f \<Rightarrow> 'f" where
  "ward_initial_conversion ops v = f_mul ops v (f_half ops)"

definition ward_extended :: "'f t_float_ops \<Rightarrow> 'f CentroidDissimilarity \<Rightarrow> nat \<Rightarrow> nat \<Rightarrow> exn + 'f" where
  "ward_extended ops d i j = sqeuclidean_extended ops d i j"

subsection \<open>Merge events, \<^verbatim>\<open>cluster_result\<close> and \<^verbatim>\<open>postprocess\<close>\<close>

text \<open>
  Modelled from the spec: \<^verbatim>\<open>struct node\<close> and \<^verbatim>\<open>class cluster_result\<close>, declared in the
  absent header. Spec 3: a merge event is "a triple (left_index, right_index, raw_distance)
  produced exactly N-1 times by the engine". The source reads the fields \<^verbatim>\<open>node1\<close>,
  \<^verbatim>\<open>node2\<close> and \<^verbatim>\<open>dist\<close> of an entry (the field is \<open>dist'\<close> here: \<open>dist\<close> is the metric
  of the library). A \<^verbatim>\<open>cluster_result\<close> is the list of the merge events appended so far.
\<close>

record 'f node =
  node1 :: nat
  node2 :: nat
  dist' :: 'f

text \<open>
  Modelled from the spec: \<^verbatim>\<open>cluster_result::sqrt\<close>, absent from the sources. Spec 4.2,
  finalize distances: "converts every stored squared distance into a true Euclidean distance
  via square root", over the final merge-event sequence.
\<close>

definition cluster_result_sqrt :: "'f t_float_ops \<Rightarrow> 'f node list \<Rightarrow> 'f node list" where
  "cluster_result_sqrt ops Z2 = map (\<lambda>e. e\<lparr> dist' := f_sqrt ops (dist' e) \<rparr>) Z2"

definition postprocess ::
  "'f t_float_ops \<Rightarrow> 'f CentroidDissimilarity \<Rightarrow> 'f node list \<Rightarrow> 'f node list" where
  "postprocess ops d result = cluster_result_sqrt ops result"

subsection \<open>\<^verbatim>\<open>union_find\<close> and the sort\<close>

text \<open>
  Modelled from the spec: \<^verbatim>\<open>class union_find\<close>, absent from the sources. Spec 4.4 and the
  glossary: "a structure mapping each element to its current representative cluster,
  supporting union and find"; the encoder resolves an index "to its current set
  representative" and unions the two "under the new internal node's identity", the internal
  nodes being numbered sequentially from \<open>N\<close>. \<^verbatim>\<open>Find\<close> follows the parents up to an element
  that has none; where the parents form a cycle it does not return, which is the value \<open>None\<close>.
\<close>

record union_find =
  parent :: "nat \<Rightarrow> nat option"
  nextparent :: nat

definition new_union_find :: "nat \<Rightarrow> union_find" where
  "new_union_find sz = \<lparr> parent = (\<lambda>idx. None), nextparent = sz \<rparr>"

partial_function (option) Find :: "union_find \<Rightarrow> nat \<Rightarrow> nat option" where
  "Find nodes idx = (case parent nodes idx of None \<Rightarrow> Some idx | Some p \<Rightarrow> Find nodes p)"

definition Union_nodes :: "union_find \<Rightarrow> nat \<Rightarrow> nat \<Rightarrow> union_find" where
  "Union_nodes nodes n1 n2 =
     nodes\<lparr> parent := (parent nodes)(n1 \<mapsto> nextparent nodes, n2 \<mapsto> nextparent nodes),
            nextparent := nextparent nodes + 1 \<rparr>"

text \<open>
  Modelled from the spec: \<^verbatim>\<open>std::stable_sort\<close> with the \<^verbatim>\<open>operator<\<close> of \<^verbatim>\<open>node\<close> (absent
  header). Spec 4.4: "a stable sort keyed on distance, so that ties preserve original merge
  order". An insertion sort that puts an entry before the first one that is not smaller.
\<close>

fun insort_node :: "'f t_float_ops \<Rightarrow> 'f node \<Rightarrow> 'f node list \<Rightarrow> 'f node list" where
  "insort_node ops x [] = [x]"
| "insort_node ops x (y # ys) =
     (if f_less ops (dist' y) (dist' x) then y # insort_node ops x ys else x # y # ys)"

definition stable_sort :: "'f t_float_ops \<Rightarrow> 'f node list \<Rightarrow> 'f node list" where
  "stable_sort ops xs = foldr (insort_node ops) xs []"

subsection \<open>\<^verbatim>\<open>class LinkageOutput\<close>\<close>

text \<open>
  The output matrix \<^verbatim>\<open>Z\<close> is the list of its cells and the cursor an index into it;
  \<open>put\<close> is \<^verbatim>\<open>*(cursor++) = v\<close>.
\<close>

record 'f LinkageOutput =
  buffer :: "'f list"
  cursor :: nat

definition put :: "'f LinkageOutput \<Rightarrow> 'f \<Rightarrow> 'f LinkageOutput" where
  "put out v = out\<lparr> buffer := (buffer out)[cursor out := v], cursor := cursor out + 1 \<rparr>"

definition LinkageOutput_append ::
  "'f t_float_ops \<Rightarrow> 'f LinkageOutput \<Rightarrow> nat \<Rightarrow> nat \<Rightarrow> 'f \<Rightarrow> 'f \<Rightarrow> 'f LinkageOutput" where
  "LinkageOutput_append ops out n1 n2 distance sz =
     (let out' = (if n1 < n2
                  then put (put out (f_of_index ops n1)) (f_of_index ops n2)
                  else put (put out (f_of_index ops n2)) (f_of_index ops n1))
      in put (put out' distance) sz)"

subsection \<open>\<^verbatim>\<open>generateSciPyDendrogram\<close>\<close>

text \<open>
  Modelled from the spec: the macro \<^verbatim>\<open>Z_(r, c)\<close> of the absent header, \<open>Z_cell\<close> here. It
  reads column \<open>c\<close> of row \<open>r\<close> of the four-column matrix \<^verbatim>\<open>Z\<close> (spec 4.4 and 6: rows of
  left, right, distance and size, and the size of a prior internal node "looked up from the
  previously emitted row's stored size field").
\<close>

definition Z_cell :: "'f list \<Rightarrow> nat \<Rightarrow> nat \<Rightarrow> 'f" where
  "Z_cell Z r c = Z ! (r * 4 + c)"

text \<open>\<^verbatim>\<open>(node < N) ? 1 : Z_(node - N, 3)\<close>\<close>

definition side_size :: "'f t_float_ops \<Rightarrow> nat \<Rightarrow> 'f list \<Rightarrow> nat \<Rightarrow> 'f" where
  "side_size ops N Z nd = (if nd < N then f_of_index ops 1 else Z_cell Z (nd - N) 3)"

text \<open>The same read stays inside the buffer.\<close>

definition readable :: "nat \<Rightarrow> 'f list \<Rightarrow> nat \<Rightarrow> bool" where
  "readable N Z nd = (nd < N \<or> (nd - N) * 4 + 3 < length Z)"

text \<open>
  The template parameter \<^verbatim>\<open>sorted\<close> is the argument \<open>is_sorted\<close>. The two indices of
  an entry as the loop body takes them: the entry's own when it is set, else their representatives, which are then united.
\<close>

definition resolve ::
  "bool \<Rightarrow> union_find \<Rightarrow> 'f node \<Rightarrow> (nat \<times> nat \<times> union_find) option" where
  "resolve is_sorted nodes entry =
     (if is_sorted then Some (node1 entry, node2 entry, nodes)
      else (case Find nodes (node1 entry) of
              None \<Rightarrow> None
            | Some n1 \<Rightarrow>
               (case Find nodes (node2 entry) of
                  None \<Rightarrow> None
                | Some n2 \<Rightarrow> Some (n1, n2, Union_nodes nodes n1 n2))))"

text \<open>
  The loop over the entries. The result is \<open>None\<close> where the source does not return
  (\<^verbatim>\<open>Find\<close>) or reads or writes outside the buffer.
\<close>

fun dendrogram_loop ::
  "'f t_float_ops \<Rightarrow> bool \<Rightarrow> nat \<Rightarrow> 'f node list \<Rightarrow> union_find \<Rightarrow> 'f LinkageOutput \<Rightarrow>
   'f LinkageOutput option" where
  "dendrogram_loop ops is_sorted N [] nodes out = Some out"
| "dendrogram_loop ops is_sorted N (entry # rest) nodes out =
     (case resolve is_sorted nodes entry of
        None \<Rightarrow> None
      | Some (n1, n2, nodes') \<Rightarrow>
          if readable N (buffer out) n1 \<and> readable N (buffer out) n2
             \<and> cursor out + 4 \<le> length (buffer out)
          then dendrogram_loop ops is_sorted N rest nodes'
                 (LinkageOutput_append ops out n1 n2 (dist' entry)
                    (f_add ops (side_size ops N (buffer out) n1)
                               (side_size ops N (buffer out) n2)))
          else None)"

text \<open>
  The entries are \<^verbatim>\<open>Z2[0]\<close> up to \<^verbatim>\<open>Z2[N - 1]\<close>, that one excluded: the first \<open>N - 1\<close>.
  Where fewer events were appended the source reads entries that were never written, and the
  result is \<open>None\<close>. For \<open>N = 0\<close> the source forms \<^verbatim>\<open>Z2[-1]\<close> and its loop does not meet
  that end; the model takes no entry there. The entry point calls the encoder for \<open>N \<ge> 2\<close>
  only.
\<close>

definition generateSciPyDendrogram ::
  "'f t_float_ops \<Rightarrow> bool \<Rightarrow> 'f list \<Rightarrow> 'f node list \<Rightarrow> nat \<Rightarrow> 'f list option" where
  "generateSciPyDendrogram ops is_sorted Z Z2 N =
     (if length Z2 < N - 1 then None
      else let nodes = new_union_find (if is_sorted then 0 else N);
          entries = (if \<not> is_sorted then stable_sort ops (take (N - 1) Z2) else take (N - 1) Z2)
      in map_option buffer
           (dendrogram_loop ops is_sorted N entries nodes \<lparr> buffer = Z, cursor = 0 \<rparr>))"

subsection \<open>The linkage engine\<close>

text \<open>
  Modelled from the spec: \<^verbatim>\<open>generic_linkage_vector_alternative\<close>, absent from the sources.
  Spec 4.3 gives it as a black box that works on the dissimilarity object through a fixed
  interface (spec 4.2: the initial distance of two leaves, the extended distance of two nodes,
  the two merges) and produces merge events. An engine is therefore any program over that
  interface: each constructor is one call, with the rest of the program after it, which for a
  distance depends on the value returned. \<open>Emit\<close> appends a merge event to the result and
  \<open>Fails\<close> is a failure of the engine's own (an allocation, say).
\<close>

datatype 'f engine =
    Finished
  | Initial_distance nat nat "'f \<Rightarrow> 'f engine"
  | Extended_distance nat nat "'f \<Rightarrow> 'f engine"
  | Merge nat nat nat "'f engine"
  | Merge_unweighted nat nat nat "'f engine"
  | Emit nat nat 'f "'f engine"
  | Fails exn

text \<open>
  Running an engine on the object \<open>d\<close> and the result \<open>Z2\<close>. The calls are the functions of
  the source: \<^verbatim>\<open>sqeuclidean<true>\<close>, \<^verbatim>\<open>sqeuclidean_extended\<close>, \<^verbatim>\<open>merge\<close> and
  \<^verbatim>\<open>merge_weighted\<close>. An exception ends the run at the call that throws it. The run is
  \<open>None\<close> where a call would read or write outside the object's arrays, or append more than
  the \<open>count - 1\<close> events the result has room for.
\<close>

primrec run_engine ::
  "'f t_float_ops \<Rightarrow> 'f engine \<Rightarrow> 'f CentroidDissimilarity \<Rightarrow> 'f node list \<Rightarrow>
   (exn + 'f CentroidDissimilarity \<times> 'f node list) option" where
  "run_engine ops Finished d Z2 = Some (Inr (d, Z2))"
| "run_engine ops (Initial_distance i j k) d Z2 =
     (if i < count d \<and> j < count d \<and> in_range d i \<and> in_range d j
      then (case sqeuclidean ops True d i j of
              Inl e \<Rightarrow> Some (Inl e)
            | Inr v \<Rightarrow> run_engine ops (k v) d Z2)
      else None)"
| "run_engine ops (Extended_distance i j k) d Z2 =
     (if in_range d i \<and> in_range d j
      then (case sqeuclidean_extended ops d i j of
              Inl e \<Rightarrow> Some (Inl e)
            | Inr v \<Rightarrow> run_engine ops (k v) d Z2)
      else None)"
| "run_engine ops (Merge i j newNode p) d Z2 =
     (if in_range d i \<and> in_range d j \<and> count d \<le> newNode \<and> in_range d newNode
      then run_engine ops p (merge ops d i j newNode) Z2
      else None)"
| "run_engine ops (Merge_unweighted i j newNode p) d Z2 =
     (if in_range d i \<and> in_range d j \<and> count d \<le> newNode \<and> in_range d newNode
      then run_engine ops p (merge_weighted ops d i j newNode) Z2
      else None)"
| "run_engine ops (Emit a b v p) d Z2 =
     (if length Z2 + 1 < count d
      then run_engine ops p d (Z2 @ [\<lparr> node1 = a, node2 = b, dist' = v \<rparr>])
      else None)"
| "run_engine ops (Fails e) d Z2 = Some (Inl e)"

subsection \<open>\<^verbatim>\<open>fastcluster_compute_centroid_linkage\<close>\<close>

datatype fastcluster_wrapper_status =
    FASTCLUSTER_WRAPPER_SUCCESS
  | FASTCLUSTER_WRAPPER_INVALID_ARGUMENT
  | FASTCLUSTER_WRAPPER_INDEX_OVERFLOW
  | FASTCLUSTER_WRAPPER_OUTPUT_TOO_SMALL
  | FASTCLUSTER_WRAPPER_ALLOCATION_FAILURE
  | FASTCLUSTER_WRAPPER_RUNTIME_ERROR
  | FASTCLUSTER_WRAPPER_UNKNOWN_ERROR

fun status_code :: "fastcluster_wrapper_status \<Rightarrow> nat" where
  "status_code FASTCLUSTER_WRAPPER_SUCCESS = 0"
| "status_code FASTCLUSTER_WRAPPER_INVALID_ARGUMENT = 1"
| "status_code FASTCLUSTER_WRAPPER_INDEX_OVERFLOW = 2"
| "status_code FASTCLUSTER_WRAPPER_OUTPUT_TOO_SMALL = 3"
| "status_code FASTCLUSTER_WRAPPER_ALLOCATION_FAILURE = 4"
| "status_code FASTCLUSTER_WRAPPER_RUNTIME_ERROR = 5"
| "status_code FASTCLUSTER_WRAPPER_UNKNOWN_ERROR = 255"

text \<open>
  What the call depends on besides its arguments: the arithmetic, the constant
  \<^verbatim>\<open>MAX_INDEX\<close> of the absent header, the \<^verbatim>\<open>max_size\<close> of the two vector types, whether
  an allocation of a given number of elements succeeds, and the engine, as a program for each
  \<open>N\<close>.
\<close>

record 'f env =
  arith :: "'f t_float_ops"
  MAX_INDEX :: nat
  max_size_float :: nat
  max_size_index :: nat
  can_allocate :: "nat \<Rightarrow> bool"
  engine_for :: "nat \<Rightarrow> 'f engine"

text \<open>
  The handlers, in the order of the source. The exceptions are told apart by the first
  handler that takes them: \<open>bad_alloc\<close>; \<open>nan_error\<close>; \<open>std_exception\<close>, any other exception
  derived from \<^verbatim>\<open>std::exception\<close>; \<open>non_std_throw\<close>, whatever only \<^verbatim>\<open>catch (...)\<close> takes.
\<close>

fun catch_status :: "exn \<Rightarrow> fastcluster_wrapper_status" where
  "catch_status bad_alloc = FASTCLUSTER_WRAPPER_ALLOCATION_FAILURE"
| "catch_status nan_error = FASTCLUSTER_WRAPPER_RUNTIME_ERROR"
| "catch_status std_exception = FASTCLUSTER_WRAPPER_RUNTIME_ERROR"
| "catch_status non_std_throw = FASTCLUSTER_WRAPPER_UNKNOWN_ERROR"

text \<open>
  The constructor of a \<^verbatim>\<open>std::vector\<close> of \<open>n\<close> elements: above \<^verbatim>\<open>max_size\<close> it throws
  \<^verbatim>\<open>std::length_error\<close>, an exception derived from \<^verbatim>\<open>std::exception\<close>; else
  \<^verbatim>\<open>std::bad_alloc\<close> when the allocation fails. \<open>None\<close> is no exception.
\<close>

definition vector_alloc :: "nat \<Rightarrow> (nat \<Rightarrow> bool) \<Rightarrow> nat \<Rightarrow> exn option" where
  "vector_alloc max_size can n =
     (if n > max_size then Some std_exception else if can n then None else Some bad_alloc)"

text \<open>
  The body of the \<^verbatim>\<open>try\<close> block: the two vectors of the object, \<^verbatim>\<open>centroidStorage\<close> first,
  and the array of the result are allocated, the engine runs, the distances are finalized and
  the dendrogram is written with \<^verbatim>\<open>generateSciPyDendrogram<true>\<close>. \<open>Inl\<close> is an exception
  thrown, \<open>None\<close> undefined behaviour.
\<close>

definition try_block ::
  "'f env \<Rightarrow> 'f list \<Rightarrow> nat \<Rightarrow> nat \<Rightarrow> 'f list \<Rightarrow> (exn + 'f list) option" where
  "try_block env input N dm Z =
     (case vector_alloc (max_size_float env) (can_allocate env)
             (if N > 1 then (N - 1) * dm else 0) of
        Some e \<Rightarrow> Some (Inl e)
      | None \<Rightarrow>
     (case vector_alloc (max_size_index env) (can_allocate env)
             (if N > 0 then 2 * N - 1 else 0) of
        Some e \<Rightarrow> Some (Inl e)
      | None \<Rightarrow>
        let d = new_CentroidDissimilarity (arith env) input N dm in
        if \<not> can_allocate env (N - 1) then Some (Inl bad_alloc)
        else (case run_engine (arith env) (engine_for env N) d [] of
                None \<Rightarrow> None
              | Some (Inl e) \<Rightarrow> Some (Inl e)
              | Some (Inr (d', result)) \<Rightarrow>
                  (case generateSciPyDendrogram (arith env) True Z
                          (postprocess (arith env) d' result) N of
                     None \<Rightarrow> None
                   | Some Z' \<Rightarrow> Some (Inr Z')))))"

text \<open>
  A pointer argument is \<open>None\<close> when null, else the array it points to. The result is the
  status with the output array as the call leaves it.
\<close>

definition fastcluster_compute_centroid_linkage ::
  "'f env \<Rightarrow> 'f list option \<Rightarrow> nat \<Rightarrow> nat \<Rightarrow> 'f list option \<Rightarrow> nat \<Rightarrow>
   (fastcluster_wrapper_status \<times> 'f list option) option" where
  "fastcluster_compute_centroid_linkage env data_ptr pointCount dm dendrogramOut dendrogramLength =
     (case data_ptr of
        None \<Rightarrow> Some (FASTCLUSTER_WRAPPER_INVALID_ARGUMENT, dendrogramOut)
      | Some input \<Rightarrow>
     (case dendrogramOut of
        None \<Rightarrow> Some (FASTCLUSTER_WRAPPER_INVALID_ARGUMENT, dendrogramOut)
      | Some Z \<Rightarrow>
      if pointCount = 0 then Some (FASTCLUSTER_WRAPPER_SUCCESS, dendrogramOut)
      else if dm = 0 then Some (FASTCLUSTER_WRAPPER_INVALID_ARGUMENT, dendrogramOut)
      else if pointCount > MAX_INDEX env \<or> dm > MAX_INDEX env
        then Some (FASTCLUSTER_WRAPPER_INDEX_OVERFLOW, dendrogramOut)
      else let requiredLength = (if pointCount > 1 then (pointCount - 1) * 4 else 0) in
        if dendrogramLength < requiredLength
        then Some (FASTCLUSTER_WRAPPER_OUTPUT_TOO_SMALL, dendrogramOut)
        else if pointCount = 1 then Some (FASTCLUSTER_WRAPPER_SUCCESS, dendrogramOut)
        else (case try_block env input pointCount dm Z of
                None \<Rightarrow> None
              | Some (Inl e) \<Rightarrow> Some (catch_status e, dendrogramOut)
              | Some (Inr Z') \<Rightarrow> Some (FASTCLUSTER_WRAPPER_SUCCESS, Some Z'))))"

subsection \<open>What the encoder is given\<close>

text \<open>
  The engine's contract (spec 3 and 4.3): an event names two nodes that exist when it is
  made, the leaves and the internal nodes of the events before it, the event \<open>k\<close> making the
  node \<open>N + k\<close>; and no node is named twice. \<open>refers_back m es\<close> is the first part for a
  sequence whose first event finds \<open>m\<close> nodes; \<open>merge_tree\<close> adds the second.
\<close>

fun refers_back :: "nat \<Rightarrow> 'f node list \<Rightarrow> bool" where
  "refers_back m [] = True"
| "refers_back m (e # es) = (node1 e < m \<and> node2 e < m \<and> refers_back (Suc m) es)"

definition refs :: "'f node list \<Rightarrow> nat list" where
  "refs es = concat (map (\<lambda>e. [node1 e, node2 e]) es)"

definition merge_tree :: "nat \<Rightarrow> 'f node list \<Rightarrow> bool" where
  "merge_tree N es = (refers_back N es \<and> distinct (refs es))"

text \<open>
  The number of leaves under each internal node, counted in the integers: a leaf counts 1
  and the node of an event the sum of its two sides.
\<close>

definition nsize :: "nat \<Rightarrow> nat list \<Rightarrow> nat \<Rightarrow> nat" where
  "nsize N szs nd = (if nd < N then 1 else szs ! (nd - N))"

definition leaf_counts :: "nat \<Rightarrow> 'f node list \<Rightarrow> nat list" where
  "leaf_counts N es =
     foldl (\<lambda>szs e. szs @ [nsize N szs (node1 e) + nsize N szs (node2 e)]) [] es"

text \<open>
  The relabelling pass in the words of spec 4.4, step 2, on its own: walking the sequence,
  each event's two indices are replaced by their current representatives, which are then
  united. It is compared below with the loop of the source.
\<close>

fun relabel :: "union_find \<Rightarrow> 'f node list \<Rightarrow> 'f node list option" where
  "relabel nodes [] = Some []"
| "relabel nodes (e # es) =
     (case Find nodes (node1 e) of
        None \<Rightarrow> None
      | Some a \<Rightarrow>
         (case Find nodes (node2 e) of
            None \<Rightarrow> None
          | Some b \<Rightarrow>
              map_option ((#) (e\<lparr> node1 := a, node2 := b \<rparr>))
                (relabel (Union_nodes nodes a b) es)))"

text \<open>A sequence already in non-decreasing order of distance: no entry is smaller than the one before it.\<close>

fun nondecreasing :: "'f t_float_ops \<Rightarrow> 'f node list \<Rightarrow> bool" where
  "nondecreasing ops [] = True"
| "nondecreasing ops [x] = True"
| "nondecreasing ops (x # y # es) =
     (\<not> f_less ops (dist' y) (dist' x) \<and> nondecreasing ops (y # es))"

subsection \<open>What a run of the engine meets, and what a call leaves\<close>

text \<open>
  \<open>computes_nan\<close>: the run reaches a distance call whose sum is NaN, every call before it
  having been inside the arrays and none having thrown.
\<close>

primrec computes_nan ::
  "'f t_float_ops \<Rightarrow> 'f engine \<Rightarrow> 'f CentroidDissimilarity \<Rightarrow> 'f node list \<Rightarrow> bool" where
  "computes_nan ops Finished d Z2 = False"
| "computes_nan ops (Initial_distance i j k) d Z2 =
     (i < count d \<and> j < count d \<and> in_range d i \<and> in_range d j \<and>
      (let sm = sq_sum ops (basePointer d i) (basePointer d j) (dimension d)
       in fc_isnan ops sm \<or> computes_nan ops (k sm) d Z2))"
| "computes_nan ops (Extended_distance i j k) d Z2 =
     (in_range d i \<and> in_range d j \<and>
      (let sm = sq_sum ops (extendedPointer d i) (extendedPointer d j) (dimension d)
       in fc_isnan ops sm \<or> computes_nan ops (k sm) d Z2))"
| "computes_nan ops (Merge i j newNode p) d Z2 =
     (in_range d i \<and> in_range d j \<and> count d \<le> newNode \<and> in_range d newNode \<and>
      computes_nan ops p (merge ops d i j newNode) Z2)"
| "computes_nan ops (Merge_unweighted i j newNode p) d Z2 =
     (in_range d i \<and> in_range d j \<and> count d \<le> newNode \<and> in_range d newNode \<and>
      computes_nan ops p (merge_weighted ops d i j newNode) Z2)"
| "computes_nan ops (Emit a b v p) d Z2 =
     (length Z2 + 1 < count d \<and>
      computes_nan ops p d (Z2 @ [\<lparr> node1 = a, node2 = b, dist' = v \<rparr>]))"
| "computes_nan ops (Fails e) d Z2 = False"

text \<open>
  What a caller observes of a call: the status and the cells the call wrote, which are
  the first \<open>(pointCount - 1) * 4\<close> of the output on success and none otherwise.
\<close>

definition outcome_of ::
  "nat \<Rightarrow> (fastcluster_wrapper_status \<times> 'f list option) option \<Rightarrow>
   (fastcluster_wrapper_status \<times> 'f list) option" where
  "outcome_of pointCount r =
     map_option
       (\<lambda>(st, out). (st, if st = FASTCLUSTER_WRAPPER_SUCCESS
                          then take ((pointCount - 1) * 4) (case out of None \<Rightarrow> [] | Some Z \<Rightarrow> Z)
                          else [])) r"

subsection \<open>Concrete inputs\<close>

text \<open>
  An engine for two points: the distance of the two leaves, their merge into node 2, one
  event. An environment with the exact arithmetic in which every allocation succeeds, and
  one whose engine fails with a given exception.
\<close>

definition two_point_engine :: "xreal engine" where
  "two_point_engine = Initial_distance 1 0 (\<lambda>v. Merge 0 1 2 (Emit 0 1 v Finished))"

definition exact_env :: "xreal env" where
  "exact_env = \<lparr> arith = exact_ops, MAX_INDEX = 2147483647,
                 max_size_float = 1152921504606846975, max_size_index = 1152921504606846975,
                 can_allocate = (\<lambda>n. True), engine_for = (\<lambda>N. two_point_engine) \<rparr>"

definition failing_env :: "exn \<Rightarrow> xreal env" where
  "failing_env e = exact_env\<lparr> engine_for := (\<lambda>N. Fails e) \<rparr>"

text \<open>
  The points \<open>(0, 0)\<close>, \<open>(10, 0)\<close> and \<open>(5, 9)\<close>, and the engine's run on them: the three
  initial distances, the merge of the nearest pair 0 and 1 into node 3, the distance of point 2
  to it, and the merge of the two into node 4.
\<close>

definition triangle :: "xreal list" where
  "triangle = [Fin 0, Fin 0, Fin 10, Fin 0, Fin 5, Fin 9]"

definition three_point_engine :: "xreal engine" where
  "three_point_engine =
     Initial_distance 1 0 (\<lambda>a. Initial_distance 2 0 (\<lambda>b. Initial_distance 2 1 (\<lambda>c.
       Merge 0 1 3 (Emit 0 1 a
         (Extended_distance 2 3 (\<lambda>v. Merge 2 3 4 (Emit 2 3 v Finished)))))))"

definition triangle_env :: "xreal env" where
  "triangle_env = exact_env\<lparr> engine_for := (\<lambda>N. three_point_engine) \<rparr>"


text \<open>
  Event sequences: a merge tree on four leaves; one on three leaves whose second distance is
  below the first, as centroid linkage can produce; and one on three leaves that names leaves
  only and is not in order of distance.
\<close>

definition four_point_events :: "xreal node list" where
  "four_point_events =
     [\<lparr> node1 = 0, node2 = 1, dist' = Fin 1 \<rparr>,
      \<lparr> node1 = 2, node2 = 3, dist' = Fin 1 \<rparr>,
      \<lparr> node1 = 4, node2 = 5, dist' = Fin 7 \<rparr>]"

definition inversion_events :: "xreal node list" where
  "inversion_events =
     [\<lparr> node1 = 1, node2 = 0, dist' = Fin 5 \<rparr>,
      \<lparr> node1 = 3, node2 = 2, dist' = Fin 4 \<rparr>]"

definition chain_events :: "xreal node list" where
  "chain_events =
     [\<lparr> node1 = 0, node2 = 1, dist' = Fin 5 \<rparr>,
      \<lparr> node1 = 1, node2 = 2, dist' = Fin 4 \<rparr>]"

fun rank_of :: "xreal \<Rightarrow> real" where
  "rank_of (Fin a) = a"
| "rank_of x = 0"

section \<open>Properties\<close>

subsection \<open>The centroid update\<close>







subsection \<open>The rows the encoder writes\<close>

lemma put_simps:
  "cursor (put out v) = cursor out + 1"
  "buffer (put out v) = (buffer out)[cursor out := v]"
  by (simp_all add: put_def)

lemma append_cursor: "cursor (LinkageOutput_append ops out n1 n2 dv sz) = cursor out + 4"
  by (simp add: LinkageOutput_append_def Let_def put_simps)

lemma append_buffer:
  "buffer (LinkageOutput_append ops out n1 n2 dv sz) =
     (buffer out)[cursor out := f_of_index ops (min n1 n2),
                  cursor out + 1 := f_of_index ops (max n1 n2),
                  cursor out + 2 := dv, cursor out + 3 := sz]"
  by (simp add: LinkageOutput_append_def Let_def put_simps min_def max_def add.commute numeral_3_eq_3 numeral_2_eq_2)

lemma append_length: "length (buffer (LinkageOutput_append ops out n1 n2 dv sz)) = length (buffer out)"
  by (simp add: append_buffer)

lemma readable_length: "length Z = length Z' \<Longrightarrow> readable N Z n = readable N Z' n"
  by (simp add: readable_def)

lemma loop_sorted_rows:
  assumes "cursor out + 4 * length es \<le> length (buffer out)"
    and "\<forall>e\<in>set es. readable N (buffer out) (node1 e) \<and> readable N (buffer out) (node2 e)"
  shows "\<exists>out'. dendrogram_loop ops True N es nodes out = Some out'
           \<and> cursor out' = cursor out + 4 * length es
           \<and> length (buffer out') = length (buffer out)
           \<and> (\<forall>p. p < cursor out \<or> cursor out + 4 * length es \<le> p \<longrightarrow> buffer out' ! p = buffer out ! p)
           \<and> (\<forall>k<length es.
                 buffer out' ! (cursor out + 4 * k) = f_of_index ops (min (node1 (es ! k)) (node2 (es ! k)))
               \<and> buffer out' ! (cursor out + 4 * k + 1) = f_of_index ops (max (node1 (es ! k)) (node2 (es ! k)))
               \<and> buffer out' ! (cursor out + 4 * k + 2) = dist' (es ! k))"
  using assms
proof (induction es arbitrary: out)
  case Nil
  then show ?case by simp
next
  case (Cons e es)
  let ?c = "cursor out"
  let ?sz = "f_add ops (side_size ops N (buffer out) (node1 e)) (side_size ops N (buffer out) (node2 e))"
  let ?o1 = "LinkageOutput_append ops out (node1 e) (node2 e) (dist' e) ?sz"
  have c1: "cursor ?o1 = ?c + 4" by (rule append_cursor)
  have l1: "length (buffer ?o1) = length (buffer out)" by (rule append_length)
  have b: "?c + 4 \<le> length (buffer out)" using Cons.prems(1) by simp
  have pre1: "cursor ?o1 + 4 * length es \<le> length (buffer ?o1)"
    using Cons.prems(1) c1 l1 by simp
  have pre2: "\<forall>e\<in>set es. readable N (buffer ?o1) (node1 e) \<and> readable N (buffer ?o1) (node2 e)"
    using Cons.prems(2) readable_length[OF l1] by simp
  from Cons.IH[OF pre1 pre2] obtain out' where
    run: "dendrogram_loop ops True N es nodes ?o1 = Some out'"
    and cur: "cursor out' = cursor ?o1 + 4 * length es"
    and len: "length (buffer out') = length (buffer ?o1)"
    and frame: "\<And>p. p < cursor ?o1 \<or> cursor ?o1 + 4 * length es \<le> p \<Longrightarrow> buffer out' ! p = buffer ?o1 ! p"
    and rows: "\<And>k. k < length es \<Longrightarrow>
                 buffer out' ! (cursor ?o1 + 4 * k) = f_of_index ops (min (node1 (es ! k)) (node2 (es ! k)))
               \<and> buffer out' ! (cursor ?o1 + 4 * k + 1) = f_of_index ops (max (node1 (es ! k)) (node2 (es ! k)))
               \<and> buffer out' ! (cursor ?o1 + 4 * k + 2) = dist' (es ! k)"
    by blast
  have run': "dendrogram_loop ops True N (e # es) nodes out = Some out'"
    using run Cons.prems(2) b by (simp add: resolve_def)
  have o1_cells: "buffer ?o1 ! ?c = f_of_index ops (min (node1 e) (node2 e))"
    "buffer ?o1 ! (?c + 1) = f_of_index ops (max (node1 e) (node2 e))"
    "buffer ?o1 ! (?c + 2) = dist' e"
    using b by (simp_all add: append_buffer)
  have o1_frame: "buffer ?o1 ! p = buffer out ! p" if "p < ?c \<or> ?c + 4 \<le> p" for p
    using that by (auto simp add: append_buffer)
  have A: "cursor out' = ?c + 4 * length (e # es)" using cur c1 by simp
  have B: "length (buffer out') = length (buffer out)" using len l1 by simp
  have C: "\<forall>p. p < ?c \<or> ?c + 4 * length (e # es) \<le> p \<longrightarrow> buffer out' ! p = buffer out ! p"
  proof (intro allI impI)
    fix p assume "p < ?c \<or> ?c + 4 * length (e # es) \<le> p"
    then have "buffer out' ! p = buffer ?o1 ! p" "p < ?c \<or> ?c + 4 \<le> p"
      using frame[of p] c1 by auto
    then show "buffer out' ! p = buffer out ! p" using o1_frame by simp
  qed
  have D: "\<forall>k<length (e # es).
        buffer out' ! (?c + 4 * k) = f_of_index ops (min (node1 ((e # es) ! k)) (node2 ((e # es) ! k)))
      \<and> buffer out' ! (?c + 4 * k + 1) = f_of_index ops (max (node1 ((e # es) ! k)) (node2 ((e # es) ! k)))
      \<and> buffer out' ! (?c + 4 * k + 2) = dist' ((e # es) ! k)"
  proof (intro allI impI)
    fix k assume k: "k < length (e # es)"
    show "buffer out' ! (?c + 4 * k) = f_of_index ops (min (node1 ((e # es) ! k)) (node2 ((e # es) ! k)))
        \<and> buffer out' ! (?c + 4 * k + 1) = f_of_index ops (max (node1 ((e # es) ! k)) (node2 ((e # es) ! k)))
        \<and> buffer out' ! (?c + 4 * k + 2) = dist' ((e # es) ! k)"
    proof (cases k)
      case 0
      then show ?thesis
        using frame[of ?c] frame[of "?c + 1"] frame[of "?c + 2"] o1_cells c1 by simp
    next
      case (Suc j)
      have e: "?c + 4 * k = cursor ?o1 + 4 * j" using Suc c1 by simp
      from Suc k have "j < length es" by simp
      from rows[OF this] show ?thesis unfolding e using Suc by simp
    qed
  qed
  from run' A B C D show ?case by blast
qed

lemma side_size_cong:
  assumes "nd < N \<or> Z' ! ((nd - N) * 4 + 3) = Z ! ((nd - N) * 4 + 3)"
  shows "side_size ops N Z' nd = side_size ops N Z nd"
  using assms by (auto simp add: side_size_def Z_cell_def)

lemma loop_sorted_sizes:
  assumes "cursor out + 4 * length es \<le> length (buffer out)"
    and "\<forall>k<length es. (node1 (es ! k) < N \<or> (node1 (es ! k) - N) * 4 + 3 < cursor out + 4 * k)
                      \<and> (node2 (es ! k) < N \<or> (node2 (es ! k) - N) * 4 + 3 < cursor out + 4 * k)"
    and "dendrogram_loop ops True N es nodes out = Some out'"
  shows "\<forall>k<length es. buffer out' ! (cursor out + 4 * k + 3) =
           f_add ops (side_size ops N (buffer out') (node1 (es ! k)))
                     (side_size ops N (buffer out') (node2 (es ! k)))"
  using assms
proof (induction es arbitrary: out)
  case Nil
  then show ?case by simp
next
  case (Cons e es)
  let ?c = "cursor out"
  let ?sz = "f_add ops (side_size ops N (buffer out) (node1 e)) (side_size ops N (buffer out) (node2 e))"
  let ?o1 = "LinkageOutput_append ops out (node1 e) (node2 e) (dist' e) ?sz"
  have c1: "cursor ?o1 = ?c + 4" by (rule append_cursor)
  have l1: "length (buffer ?o1) = length (buffer out)" by (rule append_length)
  have b: "?c + 4 \<le> length (buffer out)" using Cons.prems(1) by simp
  have e0: "(node1 e < N \<or> (node1 e - N) * 4 + 3 < ?c) \<and> (node2 e < N \<or> (node2 e - N) * 4 + 3 < ?c)"
    using Cons.prems(2)[rule_format, of 0] by simp
  have rd: "readable N (buffer out) (node1 e)" "readable N (buffer out) (node2 e)"
    using e0 b by (auto simp add: readable_def)
  have run: "dendrogram_loop ops True N es nodes ?o1 = Some out'"
    using Cons.prems(3) rd b by (simp add: resolve_def)
  have pre1: "cursor ?o1 + 4 * length es \<le> length (buffer ?o1)"
    using Cons.prems(1) c1 l1 by simp
  have pre2: "\<forall>k<length es. (node1 (es ! k) < N \<or> (node1 (es ! k) - N) * 4 + 3 < cursor ?o1 + 4 * k)
                      \<and> (node2 (es ! k) < N \<or> (node2 (es ! k) - N) * 4 + 3 < cursor ?o1 + 4 * k)"
  proof (intro allI impI)
    fix k assume "k < length es"
    then have "Suc k < length (e # es)" by simp
    from Cons.prems(2)[rule_format, OF this] show
      "(node1 (es ! k) < N \<or> (node1 (es ! k) - N) * 4 + 3 < cursor ?o1 + 4 * k)
       \<and> (node2 (es ! k) < N \<or> (node2 (es ! k) - N) * 4 + 3 < cursor ?o1 + 4 * k)"
      by (simp add: c1 add.assoc)
  qed
  note IH = Cons.IH[OF pre1 pre2 run]
  have rd2: "\<forall>x\<in>set es. readable N (buffer ?o1) (node1 x) \<and> readable N (buffer ?o1) (node2 x)"
  proof
    fix x assume "x \<in> set es"
    then obtain k where k: "k < length es" "x = es ! k" by (auto simp add: in_set_conv_nth)
    from pre2[rule_format, OF k(1)] k pre1 show
      "readable N (buffer ?o1) (node1 x) \<and> readable N (buffer ?o1) (node2 x)"
      by (auto simp add: readable_def)
  qed
  from loop_sorted_rows[OF pre1 rd2, of ops nodes] run
  have frame: "\<And>p. p < cursor ?o1 \<Longrightarrow> buffer out' ! p = buffer ?o1 ! p" by auto
  have below: "buffer out' ! p = buffer out ! p" if "p < ?c" for p
    using that frame[of p] c1 by (simp add: append_buffer)
  have s0: "side_size ops N (buffer out') nd = side_size ops N (buffer out) nd"
    if "nd < N \<or> (nd - N) * 4 + 3 < ?c" for nd
    using that below by (intro side_size_cong) auto
  have cell: "buffer out' ! (?c + 3) = ?sz"
    using frame[of "?c + 3"] c1 b by (simp add: append_buffer)
  show ?case
  proof (intro allI impI)
    fix k assume k: "k < length (e # es)"
    show "buffer out' ! (?c + 4 * k + 3) =
           f_add ops (side_size ops N (buffer out') (node1 ((e # es) ! k)))
                     (side_size ops N (buffer out') (node2 ((e # es) ! k)))"
    proof (cases k)
      case 0
      then show ?thesis using cell e0 s0 by simp
    next
      case (Suc j)
      have e: "?c + 4 * k = cursor ?o1 + 4 * j" using Suc c1 by simp
      from Suc k have "j < length es" by simp
      from IH[rule_format, OF this] show ?thesis unfolding e using Suc by simp
    qed
  qed
qed

lemma refers_back_nth:
  "refers_back m es \<Longrightarrow> k < length es \<Longrightarrow> node1 (es ! k) < m + k \<and> node2 (es ! k) < m + k"
proof (induction es arbitrary: m k)
  case Nil
  then show ?case by simp
next
  case (Cons e es)
  show ?case
  proof (cases k)
    case 0
    with Cons.prems show ?thesis by simp
  next
    case (Suc j)
    with Cons.prems have "refers_back (Suc m) es" "j < length es" by simp_all
    from Cons.IH[OF this] Suc show ?thesis by simp
  qed
qed

lemma gen_sorted_rows:
  assumes Z: "4 * (N - 1) \<le> length Z"
    and len: "length Z2 = N - 1"
    and rng: "\<forall>e\<in>set Z2. node1 e < 2 * N - 1 \<and> node2 e < 2 * N - 1"
  shows "\<exists>Z'. generateSciPyDendrogram ops True Z Z2 N = Some Z'
          \<and> length Z' = length Z
          \<and> (\<forall>p\<ge>4 * (N - 1). Z' ! p = Z ! p)
          \<and> (\<forall>k<N - 1. Z_cell Z' k 0 = f_of_index ops (min (node1 (Z2 ! k)) (node2 (Z2 ! k)))
                      \<and> Z_cell Z' k 1 = f_of_index ops (max (node1 (Z2 ! k)) (node2 (Z2 ! k)))
                      \<and> Z_cell Z' k 2 = dist' (Z2 ! k))"
proof -
  let ?out = "\<lparr> buffer = Z, cursor = 0 \<rparr>"
  have pre1: "cursor ?out + 4 * length Z2 \<le> length (buffer ?out)" using Z len by simp
  have pre2: "\<forall>e\<in>set Z2. readable N (buffer ?out) (node1 e) \<and> readable N (buffer ?out) (node2 e)"
  proof
    fix e assume "e \<in> set Z2"
    with rng have "node1 e < 2 * N - 1" "node2 e < 2 * N - 1" by auto
    with Z show "readable N (buffer ?out) (node1 e) \<and> readable N (buffer ?out) (node2 e)"
      by (auto simp add: readable_def)
  qed
  from loop_sorted_rows[OF pre1 pre2, of ops "new_union_find 0"] obtain out' where
    run: "dendrogram_loop ops True N Z2 (new_union_find 0) ?out = Some out'"
    and l: "length (buffer out') = length Z"
    and frame: "\<And>p. 4 * length Z2 \<le> p \<Longrightarrow> buffer out' ! p = Z ! p"
    and rows: "\<And>k. k < length Z2 \<Longrightarrow>
                 buffer out' ! (4 * k) = f_of_index ops (min (node1 (Z2 ! k)) (node2 (Z2 ! k)))
               \<and> buffer out' ! (4 * k + 1) = f_of_index ops (max (node1 (Z2 ! k)) (node2 (Z2 ! k)))
               \<and> buffer out' ! (4 * k + 2) = dist' (Z2 ! k)"
    by auto
  have g: "generateSciPyDendrogram ops True Z Z2 N = Some (buffer out')"
    using run len by (simp add: generateSciPyDendrogram_def)
  show ?thesis
    using g l frame rows len by (auto simp add: Z_cell_def mult.commute)
qed

lemma gen_sorted_sizes:
  assumes Z: "4 * (N - 1) \<le> length Z"
    and len: "length Z2 = N - 1"
    and rb: "refers_back N Z2"
    and g: "generateSciPyDendrogram ops True Z Z2 N = Some Z'"
  shows "\<forall>k<N - 1. Z_cell Z' k 3 =
           f_add ops (side_size ops N Z' (node1 (Z2 ! k))) (side_size ops N Z' (node2 (Z2 ! k)))"
proof -
  let ?out = "\<lparr> buffer = Z, cursor = 0 \<rparr>"
  from g len obtain out' where
    run: "dendrogram_loop ops True N Z2 (new_union_find 0) ?out = Some out'" and b: "Z' = buffer out'"
    by (auto simp add: generateSciPyDendrogram_def)
  have pre1: "cursor ?out + 4 * length Z2 \<le> length (buffer ?out)" using Z len by simp
  have pre2: "\<forall>k<length Z2.
       (node1 (Z2 ! k) < N \<or> (node1 (Z2 ! k) - N) * 4 + 3 < cursor ?out + 4 * k)
     \<and> (node2 (Z2 ! k) < N \<or> (node2 (Z2 ! k) - N) * 4 + 3 < cursor ?out + 4 * k)"
  proof (intro allI impI)
    fix k assume "k < length Z2"
    from refers_back_nth[OF rb this] show
      "(node1 (Z2 ! k) < N \<or> (node1 (Z2 ! k) - N) * 4 + 3 < cursor ?out + 4 * k)
     \<and> (node2 (Z2 ! k) < N \<or> (node2 (Z2 ! k) - N) * 4 + 3 < cursor ?out + 4 * k)"
      by auto
  qed
  from loop_sorted_sizes[OF pre1 pre2 run] show ?thesis
    using len b by (simp add: Z_cell_def mult.commute)
qed

lemma refers_back_range:
  assumes "refers_back N Z2" "length Z2 = N - 1"
  shows "\<forall>e\<in>set Z2. node1 e < 2 * N - 1 \<and> node2 e < 2 * N - 1"
proof
  fix e assume "e \<in> set Z2"
  then obtain k where k: "k < length Z2" "e = Z2 ! k" by (auto simp add: in_set_conv_nth)
  from refers_back_nth[OF assms(1) k(1)] k assms(2) show "node1 e < 2 * N - 1 \<and> node2 e < 2 * N - 1"
    by auto
qed

subsection \<open>Sizes: the leaves under a node\<close>

lemma leaf_counts_snoc:
  "leaf_counts N (es @ [e]) =
     leaf_counts N es @ [nsize N (leaf_counts N es) (node1 e) + nsize N (leaf_counts N es) (node2 e)]"
  by (simp add: leaf_counts_def)

lemma length_leaf_counts: "length (leaf_counts N es) = length es"
  by (induction es rule: rev_induct) (simp_all add: leaf_counts_snoc, simp add: leaf_counts_def)

lemma refers_back_snoc:
  "refers_back m (es @ [e]) =
     (refers_back m es \<and> node1 e < m + length es \<and> node2 e < m + length es)"
  by (induction es arbitrary: m) auto

lemma refs_snoc: "refs (es @ [e]) = refs es @ [node1 e, node2 e]"
  by (simp add: refs_def)

lemma refs_bound:
  assumes "refers_back m es" "n \<in> set (refs es)"
  shows "n < m + length es"
proof -
  from assms(2) obtain e where "e \<in> set es" "n = node1 e \<or> n = node2 e"
    by (auto simp add: refs_def)
  then obtain k where "k < length es" "n = node1 (es ! k) \<or> n = node2 (es ! k)"
    by (auto simp add: in_set_conv_nth)
  with refers_back_nth[OF assms(1), of k] show ?thesis by auto
qed

lemma length_refs: "length (refs es) = 2 * length es"
  by (induction es) (simp_all add: refs_def)

lemma nsize_snoc:
  "nd < N + length szs \<Longrightarrow> nsize N (szs @ [x]) nd = nsize N szs nd"
  by (auto simp add: nsize_def nth_append)

lemma nsize_top: "length szs = m \<Longrightarrow> nsize N (szs @ [x]) (N + m) = x"
  using nth_append_length[of szs x "[]"] by (auto simp add: nsize_def)

text \<open>The leaves under the nodes not yet merged are all the leaves.\<close>

lemma active_sum:
  assumes "merge_tree N es"
  shows "(\<Sum>n\<in>{0..<N + length es} - set (refs es). nsize N (leaf_counts N es) n) = N"
  using assms
proof (induction es rule: rev_induct)
  case Nil
  then show ?case by (simp add: refs_def leaf_counts_def nsize_def)
next
  case (snoc e es)
  let ?a = "node1 e" and ?b = "node2 e"
  let ?L = "leaf_counts N es"
  let ?A = "{0..<N + length es} - set (refs es)"
  let ?x = "nsize N ?L ?a + nsize N ?L ?b"
  from snoc.prems have rb: "refers_back N es" and a: "?a < N + length es" and b: "?b < N + length es"
    and d: "distinct (refs es)" and ab: "?a \<noteq> ?b" and na: "?a \<notin> set (refs es)" and nb: "?b \<notin> set (refs es)"
    by (auto simp add: merge_tree_def refers_back_snoc refs_snoc)
  have IH: "(\<Sum>n\<in>?A. nsize N ?L n) = N" using snoc.IH rb d by (simp add: merge_tree_def)
  have inA: "?a \<in> ?A" "?b \<in> ?A" using a b na nb by auto
  let ?B = "?A - {?a, ?b}"
  have new: "N + length es \<notin> ?B" by simp
  have set_eq: "{0..<N + length (es @ [e])} - set (refs (es @ [e])) = insert (N + length es) ?B"
    using a b refs_bound[OF rb] by (auto simp add: refs_snoc)
  have same: "nsize N (?L @ [?x]) n = nsize N ?L n" if "n \<in> ?B" for n
    using that by (intro nsize_snoc) (simp add: length_leaf_counts)
  have top: "nsize N (?L @ [?x]) (N + length es) = ?x"
    by (rule nsize_top) (rule length_leaf_counts)
  have split: "(\<Sum>n\<in>?A. nsize N ?L n) = nsize N ?L ?a + nsize N ?L ?b + (\<Sum>n\<in>?B. nsize N ?L n)"
  proof -
    have "(\<Sum>n\<in>?A. nsize N ?L n) = nsize N ?L ?a + (\<Sum>n\<in>?A - {?a}. nsize N ?L n)"
      using inA by (intro sum.remove) auto
    also have "(\<Sum>n\<in>?A - {?a}. nsize N ?L n) = nsize N ?L ?b + (\<Sum>n\<in>?A - {?a} - {?b}. nsize N ?L n)"
      using inA ab by (intro sum.remove) auto
    also have "?A - {?a} - {?b} = ?B" by auto
    finally show ?thesis by simp
  qed
  have "(\<Sum>n\<in>insert (N + length es) ?B. nsize N (?L @ [?x]) n)
      = nsize N (?L @ [?x]) (N + length es) + (\<Sum>n\<in>?B. nsize N (?L @ [?x]) n)"
    using new by (intro sum.insert) auto
  also have "nsize N (?L @ [?x]) (N + length es) = ?x" by (rule top)
  also have "(\<Sum>n\<in>?B. nsize N (?L @ [?x]) n) = (\<Sum>n\<in>?B. nsize N ?L n)"
    using same by (intro sum.cong) auto
  finally show ?case
    unfolding set_eq leaf_counts_snoc using split IH by simp
qed

lemma refers_back_append: "refers_back m (xs @ ys) \<Longrightarrow> refers_back m xs"
  by (induction xs arbitrary: m) auto

lemma refs_append: "refs (xs @ ys) = refs xs @ refs ys"
  by (simp add: refs_def)

lemma merge_tree_take:
  assumes "merge_tree N es"
  shows "merge_tree N (take k es)"
proof -
  have "refers_back N (take k es)"
    using assms refers_back_append[of N "take k es" "drop k es"] by (simp add: merge_tree_def)
  moreover have "distinct (refs (take k es))"
    using assms by (metis append_take_drop_id distinct_append refs_append merge_tree_def)
  ultimately show ?thesis by (simp add: merge_tree_def)
qed

lemma leaf_counts_take:
  "k \<le> length es \<Longrightarrow> take k (leaf_counts N es) = leaf_counts N (take k es)"
proof (induction es arbitrary: k rule: rev_induct)
  case Nil
  then show ?case by (simp add: leaf_counts_def)
next
  case (snoc e es)
  show ?case
  proof (cases "k \<le> length es")
    case True
    then show ?thesis using snoc.IH by (simp add: leaf_counts_snoc length_leaf_counts)
  next
    case False
    with snoc.prems have "k = length (es @ [e])" by simp
    then show ?thesis
      by (metis order_refl take_all length_leaf_counts)
  qed
qed

lemma leaf_count_le:
  assumes "merge_tree N es" "k < length es"
  shows "leaf_counts N es ! k \<le> N"
proof -
  let ?es = "take (Suc k) es"
  have mt: "merge_tree N ?es" using assms(1) by (rule merge_tree_take)
  have len: "length ?es = Suc k" using assms(2) by simp
  have nr: "N + k \<notin> set (refs ?es)"
  proof
    assume "N + k \<in> set (refs ?es)"
    then obtain j where j: "j < length ?es" "N + k = node1 (?es ! j) \<or> N + k = node2 (?es ! j)"
      by (auto simp add: refs_def in_set_conv_nth)
    from mt have "refers_back N ?es" by (simp add: merge_tree_def)
    from refers_back_nth[OF this j(1)] j len show False by auto
  qed
  have mem: "N + k \<in> {0..<N + length ?es} - set (refs ?es)" using nr len by simp
  have "nsize N (leaf_counts N ?es) (N + k) \<le> (\<Sum>n\<in>{0..<N + length ?es} - set (refs ?es). nsize N (leaf_counts N ?es) n)"
    using mem by (intro member_le_sum) auto
  then have "nsize N (leaf_counts N ?es) (N + k) \<le> N" using active_sum[OF mt] by simp
  moreover have "nsize N (leaf_counts N ?es) (N + k) = leaf_counts N ?es ! k" by (simp add: nsize_def)
  moreover have "leaf_counts N ?es ! k = leaf_counts N es ! k"
    using leaf_counts_take[of "Suc k" es N] assms(2) by (metis lessI nth_take Suc_leI)
  ultimately show ?thesis by simp
qed

lemma root_count:
  assumes mt: "merge_tree N es" and len: "length es = N - 1" and N: "2 \<le> N"
  shows "leaf_counts N es ! (N - 2) = N"
proof -
  have rb: "refers_back N es" and d: "distinct (refs es)" using mt by (simp_all add: merge_tree_def)
  have sub: "set (refs es) \<subseteq> {0..<2 * N - 2}"
  proof
    fix n assume n: "n \<in> set (refs es)"
    then obtain j where j: "j < length es" "n = node1 (es ! j) \<or> n = node2 (es ! j)"
      by (auto simp add: refs_def in_set_conv_nth)
    from refers_back_nth[OF rb j(1)] j len show "n \<in> {0..<2 * N - 2}" by auto
  qed
  have "card (set (refs es)) = 2 * N - 2"
    using d len by (simp add: distinct_card length_refs)
  then have "set (refs es) = {0..<2 * N - 2}"
    using sub by (intro card_subset_eq) auto
  then have "{0..<N + length es} - set (refs es) = {2 * N - 2}"
    using len N by auto
  with active_sum[OF mt] have "nsize N (leaf_counts N es) (2 * N - 2) = N" by simp
  moreover have "2 * N - 2 - N = N - 2" "\<not> 2 * N - 2 < N" using N by auto
  ultimately show ?thesis by (simp add: nsize_def)
qed

lemma leaf_counts_nth:
  assumes "refers_back N es" "k < length es"
  shows "leaf_counts N es ! k =
           nsize N (leaf_counts N es) (node1 (es ! k)) + nsize N (leaf_counts N es) (node2 (es ! k))"
  using assms
proof (induction es rule: rev_induct)
  case Nil
  then show ?case by simp
next
  case (snoc e es)
  let ?L = "leaf_counts N es"
  let ?x = "nsize N ?L (node1 e) + nsize N ?L (node2 e)"
  from snoc.prems(1) have rb: "refers_back N es" and a: "node1 e < N + length es"
    and b: "node2 e < N + length es"
    by (simp_all add: refers_back_snoc)
  show ?case
  proof (cases "k < length es")
    case True
    from refers_back_nth[OF rb True]
    have "node1 (es ! k) < N + length ?L" "node2 (es ! k) < N + length ?L"
      using True by (simp_all add: length_leaf_counts)
    then have "nsize N (?L @ [?x]) (node1 (es ! k)) = nsize N ?L (node1 (es ! k))"
      "nsize N (?L @ [?x]) (node2 (es ! k)) = nsize N ?L (node2 (es ! k))"
      by (simp_all add: nsize_snoc)
    then show ?thesis
      using True snoc.IH[OF rb True] by (simp add: leaf_counts_snoc nth_append length_leaf_counts)
  next
    case False
    with snoc.prems(2) have k: "k = length es" by simp
    have "nsize N (?L @ [?x]) (node1 e) = nsize N ?L (node1 e)"
      "nsize N (?L @ [?x]) (node2 e) = nsize N ?L (node2 e)"
      using a b by (simp_all add: nsize_snoc length_leaf_counts)
    moreover have "(?L @ [?x]) ! length es = ?x"
      using nth_append_length[of ?L ?x "[]"] by (simp add: length_leaf_counts)
    ultimately show ?thesis using k by (simp add: leaf_counts_snoc)
  qed
qed

lemma size_cells_are_counts:
  assumes Z: "4 * (N - 1) \<le> length Z"
    and len: "length Z2 = N - 1"
    and mt: "merge_tree N Z2"
    and exact: "\<forall>a b. a + b \<le> N \<longrightarrow>
        f_add ops (f_of_index ops a) (f_of_index ops b) = f_of_index ops (a + b)"
    and g: "generateSciPyDendrogram ops True Z Z2 N = Some Z'"
  shows "k < N - 1 \<Longrightarrow> Z_cell Z' k 3 = f_of_index ops (leaf_counts N Z2 ! k)"
proof (induction k rule: less_induct)
  case (less k)
  let ?L = "leaf_counts N Z2"
  have rb: "refers_back N Z2" using mt by (simp add: merge_tree_def)
  have k: "k < length Z2" using less.prems len by simp
  have side: "side_size ops N Z' nd = f_of_index ops (nsize N ?L nd)" if "nd < N + k" for nd
  proof (cases "nd < N")
    case True
    then show ?thesis by (simp add: side_size_def nsize_def)
  next
    case False
    with that have "nd - N < k" by simp
    with less.IH[of "nd - N"] less.prems False show ?thesis
      by (simp add: side_size_def nsize_def)
  qed
  from refers_back_nth[OF rb k]
  have n: "node1 (Z2 ! k) < N + k" "node2 (Z2 ! k) < N + k" by simp_all
  have sum: "?L ! k = nsize N ?L (node1 (Z2 ! k)) + nsize N ?L (node2 (Z2 ! k))"
    by (rule leaf_counts_nth[OF rb k])
  have le: "nsize N ?L (node1 (Z2 ! k)) + nsize N ?L (node2 (Z2 ! k)) \<le> N"
    using leaf_count_le[OF mt k] sum by simp
  have "Z_cell Z' k 3 =
      f_add ops (side_size ops N Z' (node1 (Z2 ! k))) (side_size ops N Z' (node2 (Z2 ! k)))"
    using gen_sorted_sizes[OF Z len rb g] less.prems by simp
  also have "\<dots> = f_add ops (f_of_index ops (nsize N ?L (node1 (Z2 ! k))))
                             (f_of_index ops (nsize N ?L (node2 (Z2 ! k))))"
    using side n by simp
  also have "\<dots> = f_of_index ops (nsize N ?L (node1 (Z2 ! k)) + nsize N ?L (node2 (Z2 ! k)))"
    using exact le by blast
  finally show ?case using sum by simp
qed

text \<open>
  The sizes the encoder writes for the events of a merge tree: each the sum of its two sides,
  the last one \<open>N\<close>.
\<close>

lemma encoder_row_sizes:
  assumes N: "2 \<le> N"
    and Z: "4 * (N - 1) \<le> length Z"
    and len: "length Z2 = N - 1"
    and mt: "merge_tree N Z2"
    and exact: "\<forall>a b. a + b \<le> N \<longrightarrow>
        f_add ops (f_of_index ops a) (f_of_index ops b) = f_of_index ops (a + b)"
  shows "\<exists>Z'. generateSciPyDendrogram ops True Z Z2 N = Some Z'
          \<and> (\<forall>k<N - 1. Z_cell Z' k 3 =
                f_add ops (side_size ops N Z' (node1 (Z2 ! k)))
                          (side_size ops N Z' (node2 (Z2 ! k))))
          \<and> Z_cell Z' (N - 2) 3 = f_of_index ops N"
proof -
  have rb: "refers_back N Z2" using mt by (simp add: merge_tree_def)
  from gen_sorted_rows[OF Z len refers_back_range[OF rb len], of ops]
  obtain Z' where g: "generateSciPyDendrogram ops True Z Z2 N = Some Z'" by blast
  have "Z_cell Z' (N - 2) 3 = f_of_index ops (leaf_counts N Z2 ! (N - 2))"
    using size_cells_are_counts[OF Z len mt exact g, of "N - 2"] N by simp
  then have "Z_cell Z' (N - 2) 3 = f_of_index ops N"
    using root_count[OF mt len N] by simp
  with g gen_sorted_sizes[OF Z len rb g] show ?thesis by blast
qed

subsection \<open>The sort and the relabelling\<close>

lemma loop_sorted_ignores_nodes:
  "dendrogram_loop ops True N es nodes out = dendrogram_loop ops True N es nodes' out"
  by (induction es arbitrary: out) (simp_all add: resolve_def)

lemma loop_unsorted_relabel:
  "dendrogram_loop ops False N es nodes out =
     (case relabel nodes es of
        None \<Rightarrow> None
      | Some es' \<Rightarrow> dendrogram_loop ops True N es' nodes0 out)"
proof (induction es arbitrary: nodes out)
  case Nil
  then show ?case by simp
next
  case (Cons e es)
  show ?case
  proof (cases "Find nodes (node1 e)")
    case None
    then show ?thesis by (simp add: resolve_def)
  next
    case (Some a)
    note a = this
    show ?thesis
    proof (cases "Find nodes (node2 e)")
      case None
      with a show ?thesis by (simp add: resolve_def)
    next
      case (Some b)
      show ?thesis
        using a Some Cons.IH[of "Union_nodes nodes a b"]
        by (cases "relabel (Union_nodes nodes a b) es") (simp_all add: resolve_def)
    qed
  qed
qed

lemma length_relabel: "relabel nodes es = Some es' \<Longrightarrow> length es' = length es"
  by (induction es arbitrary: nodes es') (auto split: option.splits)

lemma length_insort_node: "length (insort_node ops x ys) = Suc (length ys)"
  by (induction ys) simp_all

lemma length_stable_sort: "length (stable_sort ops xs) = length xs"
  by (induction xs) (simp_all add: stable_sort_def length_insort_node)

lemma gen_unsorted_relabel:
  "generateSciPyDendrogram ops False Z Z2 N =
     (if length Z2 < N - 1 then None
      else (case relabel (new_union_find N) (stable_sort ops (take (N - 1) Z2)) of
              None \<Rightarrow> None
            | Some es' \<Rightarrow> generateSciPyDendrogram ops True Z es' N))"
proof (cases "length Z2 < N - 1")
  case True
  then show ?thesis by (simp add: generateSciPyDendrogram_def)
next
  case False
  let ?s = "stable_sort ops (take (N - 1) Z2)"
  have ls: "length ?s = N - 1" using False by (simp add: length_stable_sort)
  show ?thesis
  proof (cases "relabel (new_union_find N) ?s")
    case None
    then show ?thesis
      using False loop_unsorted_relabel[of ops N ?s "new_union_find N"]
      by (simp add: generateSciPyDendrogram_def)
  next
    case (Some es')
    then have "length es' = N - 1" using length_relabel ls by metis
    then show ?thesis
      using False Some loop_unsorted_relabel[of ops N ?s "new_union_find N" _ "new_union_find 0"]
      by (simp add: generateSciPyDendrogram_def)
  qed
qed

lemma insort_node_key:
  assumes "\<forall>y\<in>set ys. f_less ops (dist' y) (dist' x) = (rank (dist' y) < rank (dist' x))"
  shows "insort_node ops x ys = insort_key (\<lambda>e. rank (dist' e)) x ys"
  using assms by (induction ys) (auto simp add: not_less)

lemma set_insort_node: "set (insort_node ops x ys) = insert x (set ys)"
  by (induction ys) auto

lemma set_stable_sort: "set (stable_sort ops xs) = set xs"
  by (induction xs) (simp_all add: stable_sort_def set_insort_node)

lemma stable_sort_key:
  fixes rank :: "'f \<Rightarrow> 'r::linorder"
  assumes "\<forall>x\<in>set xs. \<forall>y\<in>set xs. f_less ops (dist' x) (dist' y) = (rank (dist' x) < rank (dist' y))"
  shows "stable_sort ops xs = sort_key (\<lambda>e. rank (dist' e)) xs"
  using assms
proof (induction xs)
  case Nil
  then show ?case by (simp add: stable_sort_def)
next
  case (Cons x xs)
  have IH: "stable_sort ops xs = sort_key (\<lambda>e. rank (dist' e)) xs" using Cons by simp
  have "insort_node ops x (stable_sort ops xs) = insort_key (\<lambda>e. rank (dist' e)) x (stable_sort ops xs)"
    using Cons.prems by (intro insort_node_key) (simp add: set_stable_sort)
  then show ?case using IH by (simp add: stable_sort_def)
qed

lemma stable_sort_nondecreasing: "nondecreasing ops xs \<Longrightarrow> stable_sort ops xs = xs"
proof (induction xs rule: nondecreasing.induct)
  case (1 ops)
  then show ?case by (simp add: stable_sort_def)
next
  case (2 ops x)
  then show ?case by (simp add: stable_sort_def)
next
  case (3 ops x y es)
  then have "stable_sort ops (y # es) = y # es" by simp
  then have "stable_sort ops (x # y # es) = insort_node ops x (y # es)"
    by (simp add: stable_sort_def)
  with 3 show ?case by simp
qed

lemma Find_root: "parent nodes idx = None \<Longrightarrow> Find nodes idx = Some idx"
  by (subst Find.simps) simp

lemma relabel_canonical:
  assumes "distinct (refs es)" "\<forall>n\<in>set (refs es). parent nodes n = None"
  shows "relabel nodes es = Some es"
  using assms
proof (induction es arbitrary: nodes)
  case Nil
  then show ?case by simp
next
  case (Cons e es)
  have r: "refs (e # es) = node1 e # node2 e # refs es" by (simp add: refs_def)
  from Cons.prems r have a: "parent nodes (node1 e) = None" and b: "parent nodes (node2 e) = None"
    and d: "distinct (refs es)" and na: "node1 e \<notin> set (refs es)" and nb: "node2 e \<notin> set (refs es)"
    by auto
  have "\<forall>n\<in>set (refs es). parent (Union_nodes nodes (node1 e) (node2 e)) n = None"
    using Cons.prems(2) r na nb by (auto simp add: Union_nodes_def)
  from Cons.IH[OF d this] a b show ?case by (simp add: Find_root)
qed

subsection \<open>The entry point\<close>

lemma computes_nan_run:
  "computes_nan ops p d Z2 \<Longrightarrow> run_engine ops p d Z2 = Some (Inl nan_error)"
proof (induction p arbitrary: d Z2)
  case (Initial_distance i j k)
  then show ?case by (auto simp add: sqeuclidean_def Let_def)
next
  case (Extended_distance i j k)
  then show ?case by (auto simp add: sqeuclidean_extended_def Let_def)
qed simp_all

lemma wrapper_try:
  assumes "2 \<le> pointCount" "1 \<le> dm" "pointCount \<le> MAX_INDEX env" "dm \<le> MAX_INDEX env"
    and "(pointCount - 1) * 4 \<le> dendrogramLength"
  shows "fastcluster_compute_centroid_linkage env (Some input) pointCount dm (Some Z) dendrogramLength =
     (case try_block env input pointCount dm Z of
        None \<Rightarrow> None
      | Some (Inl e) \<Rightarrow> Some (catch_status e, Some Z)
      | Some (Inr Z') \<Rightarrow> Some (FASTCLUSTER_WRAPPER_SUCCESS, Some Z'))"
  using assms by (simp add: fastcluster_compute_centroid_linkage_def Let_def)

lemma entry_point_runs_sorted_encoder:
  assumes "2 \<le> pointCount" "1 \<le> dm" "pointCount \<le> MAX_INDEX env" "dm \<le> MAX_INDEX env"
    and "(pointCount - 1) * 4 \<le> dendrogramLength"
    and "(pointCount - 1) * dm \<le> max_size_float env" "2 * pointCount - 1 \<le> max_size_index env"
    and "can_allocate env ((pointCount - 1) * dm)" "can_allocate env (2 * pointCount - 1)"
      "can_allocate env (pointCount - 1)"
    and "run_engine (arith env) (engine_for env pointCount)
           (new_CentroidDissimilarity (arith env) input pointCount dm) [] = Some (Inr (d', res))"
  shows "fastcluster_compute_centroid_linkage env (Some input) pointCount dm (Some Z) dendrogramLength =
     (case generateSciPyDendrogram (arith env) True Z (postprocess (arith env) d' res) pointCount of
        None \<Rightarrow> None
      | Some Z' \<Rightarrow> Some (FASTCLUSTER_WRAPPER_SUCCESS, Some Z'))"
proof -
  have "try_block env input pointCount dm Z =
     (case generateSciPyDendrogram (arith env) True Z (postprocess (arith env) d' res) pointCount of
        None \<Rightarrow> None
      | Some Z' \<Rightarrow> Some (Inr Z'))"
    using assms(1,6-11) by (simp add: try_block_def vector_alloc_def Let_def)
  then show ?thesis
    using wrapper_try[OF assms(1-5), of input Z] by (simp split: option.splits)
qed

text \<open>
  Claim C2. When the arguments pass the checks, the allocations succeed and the engine's run computes
  a squared distance that is NaN, the run stops at that call and the entry point returns
  RuntimeError, with the output untouched.
\<close>

theorem nan_distance_is_runtime_error:
  assumes "2 \<le> pointCount" "1 \<le> dm" "pointCount \<le> MAX_INDEX env" "dm \<le> MAX_INDEX env"
    and "(pointCount - 1) * 4 \<le> dendrogramLength"
    and "can_allocate env ((pointCount - 1) * dm)" "can_allocate env (2 * pointCount - 1)"
      "can_allocate env (pointCount - 1)"
    and "computes_nan (arith env) (engine_for env pointCount)
           (new_CentroidDissimilarity (arith env) input pointCount dm) []"
  shows "fastcluster_compute_centroid_linkage env (Some input) pointCount dm (Some Z) dendrogramLength
           = Some (FASTCLUSTER_WRAPPER_RUNTIME_ERROR, Some Z)"
proof -
  have "try_block env input pointCount dm Z = Some (Inl nan_error)
      \<or> try_block env input pointCount dm Z = Some (Inl std_exception)"
    using assms(1,6-8) computes_nan_run[OF assms(9)]
    by (simp add: try_block_def vector_alloc_def Let_def)
  then show ?thesis using wrapper_try[OF assms(1-5), of input Z] by auto
qed

text \<open>
  Claim C6. As amended: with dimension 0 the entry point returns InvalidArgument, except when both
  pointers are non-null and \<open>pointCount\<close> is 0, where the test for no points comes first and
  it returns Success.
\<close>

theorem dimension_zero:
  assumes "dm = 0"
  shows "fastcluster_compute_centroid_linkage env data_ptr pointCount dm dendrogramOut dendrogramLength =
     Some (if data_ptr \<noteq> None \<and> dendrogramOut \<noteq> None \<and> pointCount = 0
           then FASTCLUSTER_WRAPPER_SUCCESS else FASTCLUSTER_WRAPPER_INVALID_ARGUMENT,
           dendrogramOut)"
  using assms
  by (cases data_ptr; cases dendrogramOut) (simp_all add: fastcluster_compute_centroid_linkage_def)

text \<open>
  Claim C9. A null \<open>data\<close> or \<open>dendrogramOut\<close> gives InvalidArgument whatever \<open>pointCount\<close> is, and
  with \<open>pointCount = 0\<close> the call succeeds exactly when both pointers are non-null.
\<close>

theorem null_pointer_first:
  "(data_ptr = None \<or> dendrogramOut = None \<longrightarrow>
      fastcluster_compute_centroid_linkage env data_ptr pointCount dm dendrogramOut dendrogramLength =
        Some (FASTCLUSTER_WRAPPER_INVALID_ARGUMENT, dendrogramOut))
   \<and> ((fastcluster_compute_centroid_linkage env data_ptr 0 dm dendrogramOut dendrogramLength =
        Some (FASTCLUSTER_WRAPPER_SUCCESS, dendrogramOut))
      = (data_ptr \<noteq> None \<and> dendrogramOut \<noteq> None))"
  by (cases data_ptr; cases dendrogramOut) (simp_all add: fastcluster_compute_centroid_linkage_def)

text \<open>
  Claim C10. An exception thrown in the \<open>try\<close> block does not leave the entry point: the call returns
  a status, AllocationFailure exactly for \<open>bad_alloc\<close>, RuntimeError exactly for the NaN error
  and for any other exception derived from \<open>std::exception\<close>, UnknownError exactly for what
  only the last handler takes.
\<close>

theorem exceptions_become_statuses:
  assumes "2 \<le> pointCount" "1 \<le> dm" "pointCount \<le> MAX_INDEX env" "dm \<le> MAX_INDEX env"
    and "(pointCount - 1) * 4 \<le> dendrogramLength"
    and "try_block env input pointCount dm Z = Some (Inl e)"
  shows "fastcluster_compute_centroid_linkage env (Some input) pointCount dm (Some Z) dendrogramLength
           = Some (catch_status e, Some Z)
       \<and> (catch_status e = FASTCLUSTER_WRAPPER_ALLOCATION_FAILURE) = (e = bad_alloc)
       \<and> (catch_status e = FASTCLUSTER_WRAPPER_RUNTIME_ERROR) = (e = nan_error \<or> e = std_exception)
       \<and> (catch_status e = FASTCLUSTER_WRAPPER_UNKNOWN_ERROR) = (e = non_std_throw)"
  using wrapper_try[OF assms(1-5), of input Z] assms(6) by (cases e) simp_all

lemma gen_sorted_independent:
  assumes Z: "4 * (N - 1) \<le> length Z" and Z': "4 * (N - 1) \<le> length Z'"
    and len: "length Z2 = N - 1"
    and rb: "refers_back N Z2"
  shows "\<exists>Z1 Z1'. generateSciPyDendrogram ops True Z Z2 N = Some Z1
           \<and> generateSciPyDendrogram ops True Z' Z2 N = Some Z1'
           \<and> take (4 * (N - 1)) Z1 = take (4 * (N - 1)) Z1'"
proof -
  note rng = refers_back_range[OF rb len]
  from gen_sorted_rows[OF Z len rng, of ops] obtain Z1 where
    g1: "generateSciPyDendrogram ops True Z Z2 N = Some Z1" and l1: "length Z1 = length Z"
    and r1: "\<And>k. k < N - 1 \<Longrightarrow>
               Z_cell Z1 k 0 = f_of_index ops (min (node1 (Z2 ! k)) (node2 (Z2 ! k)))
             \<and> Z_cell Z1 k 1 = f_of_index ops (max (node1 (Z2 ! k)) (node2 (Z2 ! k)))
             \<and> Z_cell Z1 k 2 = dist' (Z2 ! k)"
    by blast
  from gen_sorted_rows[OF Z' len rng, of ops] obtain Z1' where
    g2: "generateSciPyDendrogram ops True Z' Z2 N = Some Z1'" and l2: "length Z1' = length Z'"
    and r2: "\<And>k. k < N - 1 \<Longrightarrow>
               Z_cell Z1' k 0 = f_of_index ops (min (node1 (Z2 ! k)) (node2 (Z2 ! k)))
             \<and> Z_cell Z1' k 1 = f_of_index ops (max (node1 (Z2 ! k)) (node2 (Z2 ! k)))
             \<and> Z_cell Z1' k 2 = dist' (Z2 ! k)"
    by blast
  note s1 = gen_sorted_sizes[OF Z len rb g1, rule_format]
  note s2 = gen_sorted_sizes[OF Z' len rb g2, rule_format]
  have sz: "k < N - 1 \<Longrightarrow> Z_cell Z1 k 3 = Z_cell Z1' k 3" for k
  proof (induction k rule: less_induct)
    case (less k)
    have k: "k < length Z2" using less.prems len by simp
    have side: "side_size ops N Z1 nd = side_size ops N Z1' nd" if "nd < N + k" for nd
    proof (cases "nd < N")
      case True
      then show ?thesis by (simp add: side_size_def)
    next
      case False
      with that have "nd - N < k" by simp
      with less.IH[of "nd - N"] less.prems False show ?thesis by (simp add: side_size_def)
    qed
    from refers_back_nth[OF rb k] side
    have "side_size ops N Z1 (node1 (Z2 ! k)) = side_size ops N Z1' (node1 (Z2 ! k))"
      "side_size ops N Z1 (node2 (Z2 ! k)) = side_size ops N Z1' (node2 (Z2 ! k))"
      by simp_all
    then show ?case using s1[OF less.prems] s2[OF less.prems] by simp
  qed
  have cell: "Z1 ! p = Z1' ! p" if p: "p < 4 * (N - 1)" for p
  proof -
    let ?k = "p div 4" and ?c = "p mod 4"
    have k: "?k < N - 1" using p by (simp add: less_mult_imp_div_less mult.commute)
    have pe: "p = ?k * 4 + ?c" by simp
    have c: "?c = 0 \<or> ?c = 1 \<or> ?c = 2 \<or> ?c = 3" by presburger
    have "Z_cell Z1 ?k ?c = Z_cell Z1' ?k ?c"
      using c r1[OF k] r2[OF k] sz[OF k] by auto
    then show ?thesis unfolding Z_cell_def using pe by simp
  qed
  have "take (4 * (N - 1)) Z1 = take (4 * (N - 1)) Z1'"
    using cell l1 l2 Z Z' by (intro nth_equalityI) simp_all
  with g1 g2 show ?thesis by blast
qed

lemma count_merge_fold: "count (fold (merge_step ops i j pn mi mj dn) ks d) = count d"
  by (induction ks arbitrary: d) (simp_all add: merge_step_def)

lemma count_merge: "count (merge ops d i j n) = count d"
  by (simp add: merge_def Let_def count_merge_fold)

lemma count_merge_weighted_fold: "count (fold (merge_weighted_step ops i j pn) ks d) = count d"
  by (induction ks arbitrary: d) (simp_all add: merge_weighted_step_def)

lemma count_merge_weighted: "count (merge_weighted ops d i j n) = count d"
  by (simp add: merge_weighted_def Let_def count_merge_weighted_fold)

lemma run_engine_length:
  "run_engine ops p d Z2 = Some (Inr (d', res)) \<Longrightarrow> length Z2 \<le> count d - 1
     \<Longrightarrow> length res \<le> count d - 1"
proof (induction p arbitrary: d Z2)
  case (Initial_distance i j k)
  from Initial_distance.prems(1) obtain v where "run_engine ops (k v) d Z2 = Some (Inr (d', res))"
    by (auto split: if_splits sum.splits)
  from Initial_distance.IH[OF rangeI this Initial_distance.prems(2)] show ?case .
next
  case (Extended_distance i j k)
  from Extended_distance.prems(1) obtain v where "run_engine ops (k v) d Z2 = Some (Inr (d', res))"
    by (auto split: if_splits sum.splits)
  from Extended_distance.IH[OF rangeI this Extended_distance.prems(2)] show ?case .
next
  case (Merge i j n p)
  from Merge.prems Merge.IH[of "merge ops d i j n" Z2] show ?case
    by (auto simp add: count_merge split: if_splits)
next
  case (Merge_unweighted i j n p)
  from Merge_unweighted.prems Merge_unweighted.IH[of "merge_weighted ops d i j n" Z2] show ?case
    by (auto simp add: count_merge_weighted split: if_splits)
next
  case (Emit a b v p)
  from Emit.prems Emit.IH[of d "Z2 @ [\<lparr> node1 = a, node2 = b, dist' = v \<rparr>]"] show ?case
    by (auto split: if_splits)
qed simp_all

lemma refers_back_sqrt: "refers_back m (cluster_result_sqrt ops es) = refers_back m es"
  by (induction es arbitrary: m) (simp_all add: cluster_result_sqrt_def)

text \<open>
  Claim C8. Two calls with the same matrix, \<open>pointCount\<close>, dimension and buffer length return the
  same status and write the same cells. The model is a function of its arguments and of the
  environment, so what remains to show is that nothing depends on what the output buffer held
  before the call: it does not, where the engine's events name only nodes made before them.
\<close>

theorem output_independent_of_buffer:
  assumes lenZ: "dendrogramLength \<le> length Z" and lenZ': "dendrogramLength \<le> length Z'"
    and contract: "\<forall>d' res. run_engine (arith env) (engine_for env pointCount)
                      (new_CentroidDissimilarity (arith env) input pointCount dm) []
                        = Some (Inr (d', res)) \<longrightarrow> refers_back pointCount res"
  shows "outcome_of pointCount
           (fastcluster_compute_centroid_linkage env (Some input) pointCount dm (Some Z) dendrogramLength)
       = outcome_of pointCount
           (fastcluster_compute_centroid_linkage env (Some input) pointCount dm (Some Z') dendrogramLength)"
proof (cases "2 \<le> pointCount \<and> 1 \<le> dm \<and> pointCount \<le> MAX_INDEX env \<and> dm \<le> MAX_INDEX env
              \<and> (pointCount - 1) * 4 \<le> dendrogramLength")
  case False
  then show ?thesis
    by (auto simp add: fastcluster_compute_centroid_linkage_def outcome_of_def Let_def)
next
  case True
  then have args: "2 \<le> pointCount" "1 \<le> dm" "pointCount \<le> MAX_INDEX env" "dm \<le> MAX_INDEX env"
    "(pointCount - 1) * 4 \<le> dendrogramLength" by simp_all
  let ?d = "new_CentroidDissimilarity (arith env) input pointCount dm"
  let ?run = "run_engine (arith env) (engine_for env pointCount) ?d []"
  have try_eq: "outcome_of pointCount
        (case try_block env input pointCount dm Z of
           None \<Rightarrow> None
         | Some (Inl e) \<Rightarrow> Some (catch_status e, Some Z)
         | Some (Inr Z1) \<Rightarrow> Some (FASTCLUSTER_WRAPPER_SUCCESS, Some Z1))
      = outcome_of pointCount
        (case try_block env input pointCount dm Z' of
           None \<Rightarrow> None
         | Some (Inl e) \<Rightarrow> Some (catch_status e, Some Z')
         | Some (Inr Z1) \<Rightarrow> Some (FASTCLUSTER_WRAPPER_SUCCESS, Some Z1))"
  proof (cases "vector_alloc (max_size_float env) (can_allocate env) ((pointCount - 1) * dm) = None
                \<and> vector_alloc (max_size_index env) (can_allocate env) (2 * pointCount - 1) = None
                \<and> can_allocate env (pointCount - 1)")
    case False
    have "\<exists>e. \<forall>B. try_block env input pointCount dm B = Some (Inl e)"
    proof (cases "vector_alloc (max_size_float env) (can_allocate env) ((pointCount - 1) * dm)")
      case (Some e)
      then show ?thesis using args(1) by (simp add: try_block_def)
    next
      case None
      note n1 = this
      show ?thesis
      proof (cases "vector_alloc (max_size_index env) (can_allocate env) (2 * pointCount - 1)")
        case (Some e)
        then show ?thesis using args(1) n1 by (simp add: try_block_def)
      next
        case None
        with n1 False have "\<not> can_allocate env (pointCount - 1)" by simp
        then show ?thesis using args(1) n1 None by (simp add: try_block_def Let_def)
      qed
    qed
    then obtain e where "\<And>B. try_block env input pointCount dm B = Some (Inl e)" by blast
    then show ?thesis by (cases e) (simp_all add: outcome_of_def)
  next
    case alloc: True
    show ?thesis
    proof (cases ?run)
      case None
      then show ?thesis using args(1) alloc by (simp add: try_block_def Let_def outcome_of_def)
    next
      case (Some r)
      show ?thesis
      proof (cases r)
        case (Inl e)
        with Some show ?thesis using args(1) alloc
          by (cases e) (simp_all add: try_block_def Let_def outcome_of_def)
      next
        case (Inr pr)
        obtain d' res where pr: "pr = (d', res)" by (cases pr)
        with Some Inr have run: "?run = Some (Inr (d', res))" by simp
        have rb: "refers_back pointCount res" using contract run by blast
        have "length res \<le> count ?d - 1" using run_engine_length[OF run] by simp
        then have le: "length res \<le> pointCount - 1" by (simp add: new_CentroidDissimilarity_def)
        let ?Z2 = "postprocess (arith env) d' res"
        have tb: "try_block env input pointCount dm B =
            (case generateSciPyDendrogram (arith env) True B ?Z2 pointCount of
               None \<Rightarrow> None | Some Z1 \<Rightarrow> Some (Inr Z1))" for B
          using args(1) alloc run by (simp add: try_block_def Let_def)
        show ?thesis
        proof (cases "length res = pointCount - 1")
          case False
          with le have "length ?Z2 < pointCount - 1"
            by (simp add: postprocess_def cluster_result_sqrt_def)
          then show ?thesis unfolding tb by (simp add: generateSciPyDendrogram_def)
        next
          case True
          then have l2: "length ?Z2 = pointCount - 1"
            by (simp add: postprocess_def cluster_result_sqrt_def)
          have rb2: "refers_back pointCount ?Z2" using rb by (simp add: postprocess_def refers_back_sqrt)
          have b1: "4 * (pointCount - 1) \<le> length Z" "4 * (pointCount - 1) \<le> length Z'"
            using args(5) lenZ lenZ' by simp_all
          from gen_sorted_independent[OF b1 l2 rb2, of "arith env"] obtain Z1 Z1' where
            "generateSciPyDendrogram (arith env) True Z ?Z2 pointCount = Some Z1"
            "generateSciPyDendrogram (arith env) True Z' ?Z2 pointCount = Some Z1'"
            "take (4 * (pointCount - 1)) Z1 = take (4 * (pointCount - 1)) Z1'"
            by blast
          then show ?thesis unfolding tb by (simp add: outcome_of_def mult.commute)
        qed
      qed
    qed
  qed
  show ?thesis unfolding wrapper_try[OF args] by (rule try_eq)
qed

lemma catch_status_not_success: "catch_status e \<noteq> FASTCLUSTER_WRAPPER_SUCCESS"
  by (cases e) simp_all

lemma merge_tree_sqrt: "merge_tree N (cluster_result_sqrt ops es) = merge_tree N es"
  by (simp add: merge_tree_def refers_back_sqrt refs_def) (simp add: cluster_result_sqrt_def comp_def)

lemma nth_sqrt:
  "k < length es \<Longrightarrow> node1 (cluster_result_sqrt ops es ! k) = node1 (es ! k)
     \<and> node2 (cluster_result_sqrt ops es ! k) = node2 (es ! k)"
  by (simp add: cluster_result_sqrt_def)

lemma successful_call:
  assumes N: "2 \<le> pointCount"
    and call: "fastcluster_compute_centroid_linkage env (Some input) pointCount dm (Some Z)
                 dendrogramLength = Some (FASTCLUSTER_WRAPPER_SUCCESS, Some Z')"
  shows "(pointCount - 1) * 4 \<le> dendrogramLength
       \<and> (\<exists>d' res. run_engine (arith env) (engine_for env pointCount)
                     (new_CentroidDissimilarity (arith env) input pointCount dm) []
                       = Some (Inr (d', res))
            \<and> generateSciPyDendrogram (arith env) True Z (postprocess (arith env) d' res) pointCount
                = Some Z')"
proof -
  from N call have len: "(pointCount - 1) * 4 \<le> dendrogramLength"
    and tb: "try_block env input pointCount dm Z = Some (Inr Z')"
    by (auto simp add: fastcluster_compute_centroid_linkage_def Let_def catch_status_not_success
        split: if_splits option.splits sum.splits)
  from tb have "\<exists>d' res. run_engine (arith env) (engine_for env pointCount)
                     (new_CentroidDissimilarity (arith env) input pointCount dm) []
                       = Some (Inr (d', res))
            \<and> generateSciPyDendrogram (arith env) True Z (postprocess (arith env) d' res) pointCount
                = Some Z'"
    by (auto simp add: try_block_def Let_def split: if_splits option.splits sum.splits)
  with len show ?thesis by blast
qed

text \<open>
  Claim C4. For every successful call with \<open>N \<ge> 2\<close> points, the engine's events being those of a
  merge tree, the output holds in every row a size that is the sum of the sizes of the row's
  two sides, a leaf counting 1 and an internal node the size stored in the row emitted for it
  earlier, and the size of the last row is \<open>N\<close>. The sums are exact where the arithmetic adds
  the integers up to \<open>N\<close> exactly.
\<close>

theorem row_sizes_of_call:
  assumes N: "2 \<le> pointCount"
    and call: "fastcluster_compute_centroid_linkage env (Some input) pointCount dm (Some Z)
                 dendrogramLength = Some (FASTCLUSTER_WRAPPER_SUCCESS, Some Z')"
    and lenZ: "dendrogramLength \<le> length Z"
    and contract: "\<forall>d' res. run_engine (arith env) (engine_for env pointCount)
                      (new_CentroidDissimilarity (arith env) input pointCount dm) []
                        = Some (Inr (d', res)) \<longrightarrow> merge_tree pointCount res"
    and exact: "\<forall>a b. a + b \<le> pointCount \<longrightarrow>
        f_add (arith env) (f_of_index (arith env) a) (f_of_index (arith env) b)
          = f_of_index (arith env) (a + b)"
  shows "\<exists>d' res. run_engine (arith env) (engine_for env pointCount)
                    (new_CentroidDissimilarity (arith env) input pointCount dm) []
                      = Some (Inr (d', res))
          \<and> length res = pointCount - 1
          \<and> (\<forall>k<pointCount - 1. Z_cell Z' k 3 =
                f_add (arith env) (side_size (arith env) pointCount Z' (node1 (res ! k)))
                                  (side_size (arith env) pointCount Z' (node2 (res ! k))))
          \<and> Z_cell Z' (pointCount - 2) 3 = f_of_index (arith env) pointCount"
proof -
  let ?ops = "arith env"
  let ?d = "new_CentroidDissimilarity ?ops input pointCount dm"
  from successful_call[OF N call] obtain d' res where
    len: "(pointCount - 1) * 4 \<le> dendrogramLength"
    and run: "run_engine ?ops (engine_for env pointCount) ?d [] = Some (Inr (d', res))"
    and g: "generateSciPyDendrogram ?ops True Z (postprocess ?ops d' res) pointCount = Some Z'"
    by blast
  let ?Z2 = "postprocess ?ops d' res"
  have mt: "merge_tree pointCount res" using contract run by blast
  have "length res \<le> count ?d - 1" using run_engine_length[OF run] by simp
  then have le: "length res \<le> pointCount - 1" by (simp add: new_CentroidDissimilarity_def)
  have ge: "pointCount - 1 \<le> length res"
    using g by (auto simp add: generateSciPyDendrogram_def postprocess_def cluster_result_sqrt_def
        split: if_splits)
  from le ge have lres: "length res = pointCount - 1" by simp
  then have l2: "length ?Z2 = pointCount - 1" by (simp add: postprocess_def cluster_result_sqrt_def)
  have mt2: "merge_tree pointCount ?Z2" using mt by (simp add: postprocess_def merge_tree_sqrt)
  then have rb2: "refers_back pointCount ?Z2" by (simp add: merge_tree_def)
  have Z: "4 * (pointCount - 1) \<le> length Z" using len lenZ by simp
  have same: "node1 (?Z2 ! k) = node1 (res ! k) \<and> node2 (?Z2 ! k) = node2 (res ! k)"
    if "k < pointCount - 1" for k
    using that lres nth_sqrt[of k res ?ops] by (simp add: postprocess_def)
  have sizes: "\<forall>k<pointCount - 1. Z_cell Z' k 3 =
                f_add ?ops (side_size ?ops pointCount Z' (node1 (res ! k)))
                           (side_size ?ops pointCount Z' (node2 (res ! k)))"
    using gen_sorted_sizes[OF Z l2 rb2 g] same by simp
  have "Z_cell Z' (pointCount - 2) 3 = f_of_index ?ops (leaf_counts pointCount ?Z2 ! (pointCount - 2))"
    using size_cells_are_counts[OF Z l2 mt2 exact g, of "pointCount - 2"] N by simp
  then have last: "Z_cell Z' (pointCount - 2) 3 = f_of_index ?ops pointCount"
    using root_count[OF mt2 l2 N] by simp
  from run lres sizes last show ?thesis by blast
qed

subsection \<open>The encoder's two instantiations\<close>

text \<open>
  Claim C1. As amended: the encoder the entry point runs, \<open>generateSciPyDendrogram<true>\<close>, does
  not sort and does not consult the union-find. It takes the two indices of an event as they
  are and emits one row for each event in the engine's order, with the smaller index first and
  the event's distance. That the entry point runs this instantiation is the lemma
  \<open>entry_point_runs_sorted_encoder\<close> above.
\<close>

theorem encoder_keeps_engine_order:
  assumes Z: "4 * (N - 1) \<le> length Z"
    and len: "length Z2 = N - 1"
    and rng: "\<forall>e\<in>set Z2. node1 e < 2 * N - 1 \<and> node2 e < 2 * N - 1"
  shows "(\<exists>Z'. generateSciPyDendrogram ops True Z Z2 N = Some Z'
            \<and> (\<forall>k<N - 1.
                  Z_cell Z' k 0 = f_of_index ops (min (node1 (Z2 ! k)) (node2 (Z2 ! k)))
                \<and> Z_cell Z' k 1 = f_of_index ops (max (node1 (Z2 ! k)) (node2 (Z2 ! k)))
                \<and> Z_cell Z' k 2 = dist' (Z2 ! k)))
       \<and> resolve True nodes entry = Some (node1 entry, node2 entry, nodes)"
  using gen_sorted_rows[OF Z len rng, of ops] by (simp add: resolve_def) blast

text \<open>
  Claim C5. In every row the encoder emits, the first identifier is the smaller of the event's two
  node indices and the second the larger, and the first is less than the second: for events
  that merge two different nodes, and an arithmetic in which the conversion of the indices of
  the index space is increasing.
\<close>

theorem first_id_less_second:
  assumes Z: "4 * (N - 1) \<le> length Z"
    and len: "length Z2 = N - 1"
    and rng: "\<forall>e\<in>set Z2. node1 e \<noteq> node2 e \<and> node1 e < 2 * N - 1 \<and> node2 e < 2 * N - 1"
    and mono: "\<forall>a b. a < b \<and> b < 2 * N - 1 \<longrightarrow> f_less ops (f_of_index ops a) (f_of_index ops b)"
  shows "\<exists>Z'. generateSciPyDendrogram ops True Z Z2 N = Some Z'
          \<and> (\<forall>k<N - 1. f_less ops (Z_cell Z' k 0) (Z_cell Z' k 1)
                \<and> Z_cell Z' k 0 = f_of_index ops (min (node1 (Z2 ! k)) (node2 (Z2 ! k)))
                \<and> Z_cell Z' k 1 = f_of_index ops (max (node1 (Z2 ! k)) (node2 (Z2 ! k))))"
proof -
  from rng have rng': "\<forall>e\<in>set Z2. node1 e < 2 * N - 1 \<and> node2 e < 2 * N - 1" by blast
  from gen_sorted_rows[OF Z len rng', of ops] obtain Z' where
    g: "generateSciPyDendrogram ops True Z Z2 N = Some Z'"
    and rows: "\<And>k. k < N - 1 \<Longrightarrow>
               Z_cell Z' k 0 = f_of_index ops (min (node1 (Z2 ! k)) (node2 (Z2 ! k)))
             \<and> Z_cell Z' k 1 = f_of_index ops (max (node1 (Z2 ! k)) (node2 (Z2 ! k)))"
    by blast
  have "f_less ops (Z_cell Z' k 0) (Z_cell Z' k 1)" if k: "k < N - 1" for k
  proof -
    let ?a = "node1 (Z2 ! k)" and ?b = "node2 (Z2 ! k)"
    have "Z2 ! k \<in> set Z2" using k len by simp
    with rng have "?a \<noteq> ?b" "?a < 2 * N - 1" "?b < 2 * N - 1" by blast+
    then have "min ?a ?b < max ?a ?b \<and> max ?a ?b < 2 * N - 1" by (simp add: min_def max_def)
    with mono have "f_less ops (f_of_index ops (min ?a ?b)) (f_of_index ops (max ?a ?b))" by blast
    then show ?thesis using rows[OF k] by simp
  qed
  with g rows show ?thesis by blast
qed

text \<open>
  The encoder with \<open>sorted = false\<close>: it is the encoder with \<open>sorted = true\<close> run on the
  sorted and relabelled sequence, and the sort is a stable sort by distance wherever the
  comparison of the distances is that of a linear order.
\<close>

lemma unsorted_encoder_sorts_and_relabels:
  fixes rank :: "'f \<Rightarrow> 'r::linorder"
  assumes Z: "4 * (N - 1) \<le> length Z"
    and len: "length Z2 = N - 1"
    and rng: "\<forall>e\<in>set Z2. node1 e < 2 * N - 1 \<and> node2 e < 2 * N - 1"
    and rank: "\<forall>x\<in>set Z2. \<forall>y\<in>set Z2.
                 f_less ops (dist' x) (dist' y) = (rank (dist' x) < rank (dist' y))"
  shows "(\<exists>Z'. generateSciPyDendrogram ops True Z Z2 N = Some Z'
            \<and> (\<forall>k<N - 1.
                  Z_cell Z' k 0 = f_of_index ops (min (node1 (Z2 ! k)) (node2 (Z2 ! k)))
                \<and> Z_cell Z' k 1 = f_of_index ops (max (node1 (Z2 ! k)) (node2 (Z2 ! k)))
                \<and> Z_cell Z' k 2 = dist' (Z2 ! k)))
       \<and> generateSciPyDendrogram ops False Z Z2 N =
           (case relabel (new_union_find N) (stable_sort ops Z2) of
              None \<Rightarrow> None
            | Some es' \<Rightarrow> generateSciPyDendrogram ops True Z es' N)
       \<and> sorted (map (\<lambda>e. rank (dist' e)) (stable_sort ops Z2))
       \<and> (\<forall>v. filter (\<lambda>e. rank (dist' e) = v) (stable_sort ops Z2)
               = filter (\<lambda>e. rank (dist' e) = v) Z2)"
proof -
  have a: "\<exists>Z'. generateSciPyDendrogram ops True Z Z2 N = Some Z'
            \<and> (\<forall>k<N - 1.
                  Z_cell Z' k 0 = f_of_index ops (min (node1 (Z2 ! k)) (node2 (Z2 ! k)))
                \<and> Z_cell Z' k 1 = f_of_index ops (max (node1 (Z2 ! k)) (node2 (Z2 ! k)))
                \<and> Z_cell Z' k 2 = dist' (Z2 ! k))"
    using gen_sorted_rows[OF Z len rng, of ops] by blast
  have b: "generateSciPyDendrogram ops False Z Z2 N =
           (case relabel (new_union_find N) (stable_sort ops Z2) of
              None \<Rightarrow> None
            | Some es' \<Rightarrow> generateSciPyDendrogram ops True Z es' N)"
    using gen_unsorted_relabel[of ops Z Z2 N] len by simp
  have s: "stable_sort ops Z2 = sort_key (\<lambda>e. rank (dist' e)) Z2"
    using rank by (rule stable_sort_key)
  have c: "sorted (map (\<lambda>e. rank (dist' e)) (stable_sort ops Z2))"
    unfolding s by (rule sorted_sort_key)
  have d: "\<forall>v. filter (\<lambda>e. rank (dist' e) = v) (stable_sort ops Z2)
               = filter (\<lambda>e. rank (dist' e) = v) Z2"
    unfolding s by (simp add: sort_key_stable)
  from a b c d show ?thesis by blast
qed

text \<open>
  Claim C7. On a sequence already in non-decreasing order of distance whose events are those of a
  merge tree, smaller index first, the sort and the relabelling change nothing: the encoder
  with \<open>sorted = false\<close> returns what the one with \<open>sorted = true\<close> returns, and its rows
  carry the indices and distances of the input, in order.
\<close>

theorem canonical_input_unchanged:
  assumes Z: "4 * (N - 1) \<le> length Z"
    and len: "length Z2 = N - 1"
    and sorted_in: "nondecreasing ops Z2"
    and mt: "merge_tree N Z2"
    and ord: "\<forall>e\<in>set Z2. node1 e < node2 e"
  shows "generateSciPyDendrogram ops False Z Z2 N = generateSciPyDendrogram ops True Z Z2 N
       \<and> (\<exists>Z'. generateSciPyDendrogram ops False Z Z2 N = Some Z'
             \<and> (\<forall>k<N - 1. Z_cell Z' k 0 = f_of_index ops (node1 (Z2 ! k))
                         \<and> Z_cell Z' k 1 = f_of_index ops (node2 (Z2 ! k))
                         \<and> Z_cell Z' k 2 = dist' (Z2 ! k)))"
proof -
  have rb: "refers_back N Z2" and d: "distinct (refs Z2)" using mt by (simp_all add: merge_tree_def)
  have s: "stable_sort ops Z2 = Z2" using sorted_in by (rule stable_sort_nondecreasing)
  have r: "relabel (new_union_find N) Z2 = Some Z2"
    using d by (rule relabel_canonical) (simp add: new_union_find_def)
  have eq: "generateSciPyDendrogram ops False Z Z2 N = generateSciPyDendrogram ops True Z Z2 N"
    using gen_unsorted_relabel[of ops Z Z2 N] len s r by simp
  from gen_sorted_rows[OF Z len refers_back_range[OF rb len], of ops] obtain Z' where
    g: "generateSciPyDendrogram ops True Z Z2 N = Some Z'"
    and rows: "\<And>k. k < N - 1 \<Longrightarrow>
               Z_cell Z' k 0 = f_of_index ops (min (node1 (Z2 ! k)) (node2 (Z2 ! k)))
             \<and> Z_cell Z' k 1 = f_of_index ops (max (node1 (Z2 ! k)) (node2 (Z2 ! k)))
             \<and> Z_cell Z' k 2 = dist' (Z2 ! k)"
    by blast
  have "Z_cell Z' k 0 = f_of_index ops (node1 (Z2 ! k))
      \<and> Z_cell Z' k 1 = f_of_index ops (node2 (Z2 ! k))
      \<and> Z_cell Z' k 2 = dist' (Z2 ! k)" if k: "k < N - 1" for k
  proof -
    have "Z2 ! k \<in> set Z2" using k len by simp
    with ord have "node1 (Z2 ! k) < node2 (Z2 ! k)" by blast
    then show ?thesis using rows[OF k] by (simp add: min_def max_def)
  qed
  with eq g show ?thesis by auto
qed

subsection \<open>Runs on concrete inputs\<close>

lemmas encoder_eval = generateSciPyDendrogram_def resolve_def readable_def
  LinkageOutput_append_def put_def side_size_def Z_cell_def new_union_find_def exact_ops_def Let_def

lemma four_point_run:
  "generateSciPyDendrogram exact_ops True (replicate 12 NaN) four_point_events 4 =
     Some [Fin 0, Fin 1, Fin 1, Fin 2, Fin 2, Fin 3, Fin 1, Fin 2, Fin 4, Fin 5, Fin 7, Fin 4]"
  by (simp add: four_point_events_def encoder_eval numeral_eq_Suc)

lemma inversion_run:
  "generateSciPyDendrogram exact_ops True (replicate 8 NaN) inversion_events 3 =
     Some [Fin 0, Fin 1, Fin 5, Fin 2, Fin 2, Fin 3, Fin 4, Fin 3]"
  by (simp add: inversion_events_def encoder_eval numeral_eq_Suc)

lemma Find_step: "parent nodes idx = Some p \<Longrightarrow> Find nodes idx = Find nodes p"
  by (subst Find.simps) simp

lemma chain_sort:
  "stable_sort exact_ops chain_events =
     [\<lparr> node1 = 1, node2 = 2, dist' = Fin 4 \<rparr>, \<lparr> node1 = 0, node2 = 1, dist' = Fin 5 \<rparr>]"
  by (simp add: chain_events_def stable_sort_def exact_ops_def)

lemma chain_relabel:
  "relabel (new_union_find 3)
     [\<lparr> node1 = 1, node2 = 2, dist' = Fin 4 \<rparr>, \<lparr> node1 = 0, node2 = 1, dist' = Fin 5 \<rparr>] =
     Some [\<lparr> node1 = 1, node2 = 2, dist' = Fin 4 \<rparr>, \<lparr> node1 = 0, node2 = 3, dist' = Fin (5::real) \<rparr>]"
  by (simp add: new_union_find_def Union_nodes_def Find_root Find_step)

lemma chain_run:
  "generateSciPyDendrogram exact_ops True (replicate 8 NaN)
     [\<lparr> node1 = 1, node2 = 2, dist' = Fin 4 \<rparr>, \<lparr> node1 = 0, node2 = 3, dist' = Fin 5 \<rparr>] 3 =
     Some [Fin 1, Fin 2, Fin 4, Fin 2, Fin 0, Fin 3, Fin 5, Fin 3]"
  by (simp add: encoder_eval numeral_eq_Suc)

lemma unsorted_encoder_example:
  "generateSciPyDendrogram exact_ops True (replicate 8 NaN) chain_events 3 =
     Some [Fin 0, Fin 1, Fin 5, Fin 2, Fin 1, Fin 2, Fin 4, Fin 2]
   \<and> generateSciPyDendrogram exact_ops False (replicate 8 NaN) chain_events 3 =
     Some [Fin 1, Fin 2, Fin 4, Fin 2, Fin 0, Fin 3, Fin 5, Fin 3]
   \<and> sorted (map (\<lambda>e. rank_of (dist' e)) (stable_sort exact_ops chain_events))"
proof -
  have h: "4 * (3 - 1) \<le> length (replicate 8 NaN)" "length chain_events = 3 - 1"
    "\<forall>e\<in>set chain_events. node1 e < 2 * 3 - 1 \<and> node2 e < 2 * 3 - 1"
    "\<forall>x\<in>set chain_events. \<forall>y\<in>set chain_events.
       f_less exact_ops (dist' x) (dist' y) = (rank_of (dist' x) < rank_of (dist' y))"
    by (simp_all add: chain_events_def exact_ops_def)
  have t: "generateSciPyDendrogram exact_ops True (replicate 8 NaN) chain_events 3 =
     Some [Fin 0, Fin 1, Fin 5, Fin 2, Fin 1, Fin 2, Fin 4, Fin 2]"
    by (simp add: chain_events_def encoder_eval numeral_eq_Suc)
  note th = unsorted_encoder_sorts_and_relabels[OF h]
  have f: "generateSciPyDendrogram exact_ops False (replicate 8 NaN) chain_events 3 =
     Some [Fin 1, Fin 2, Fin 4, Fin 2, Fin 0, Fin 3, Fin 5, Fin 3]"
    using th[THEN conjunct2, THEN conjunct1] unfolding chain_sort chain_relabel
    by (simp only: option.case chain_run)
  have s: "sorted (map (\<lambda>e. rank_of (dist' e)) (stable_sort exact_ops chain_events))"
    using th[THEN conjunct2, THEN conjunct2, THEN conjunct1] .
  from t f s show ?thesis by blast
qed

lemma encoder_row_sizes_example:
  "merge_tree 4 four_point_events
   \<and> generateSciPyDendrogram exact_ops True (replicate 12 NaN) four_point_events 4 =
       Some [Fin 0, Fin 1, Fin 1, Fin 2, Fin 2, Fin 3, Fin 1, Fin 2, Fin 4, Fin 5, Fin 7, Fin 4]
   \<and> Z_cell [Fin 0, Fin 1, Fin 1, Fin 2, Fin 2, Fin 3, Fin 1, Fin 2, Fin 4, Fin 5, Fin 7, Fin 4] 2 3
       = f_of_index exact_ops 4"
proof -
  have mt: "merge_tree 4 four_point_events"
    by (simp add: merge_tree_def refs_def four_point_events_def)
  have h: "2 \<le> (4::nat)" "4 * (4 - 1) \<le> length (replicate 12 NaN)" "length four_point_events = 4 - 1"
    by (simp_all add: four_point_events_def)
  have ex: "\<forall>a b. a + b \<le> 4 \<longrightarrow>
      f_add exact_ops (f_of_index exact_ops a) (f_of_index exact_ops b) = f_of_index exact_ops (a + b)"
    by (simp add: exact_ops_def)
  from encoder_row_sizes[OF h mt ex] mt show ?thesis
    by (simp add: four_point_run)
qed

theorem first_id_less_second_witness:
  "generateSciPyDendrogram exact_ops True (replicate 8 NaN) inversion_events 3 =
     Some [Fin 0, Fin 1, Fin 5, Fin 2, Fin 2, Fin 3, Fin 4, Fin 3]
   \<and> f_less exact_ops (Z_cell [Fin 0, Fin 1, Fin 5, Fin 2, Fin 2, Fin 3, Fin 4, Fin 3] 0 0)
                       (Z_cell [Fin 0, Fin 1, Fin 5, Fin 2, Fin 2, Fin 3, Fin 4, Fin 3] 0 1)
   \<and> f_less exact_ops (Z_cell [Fin 0, Fin 1, Fin 5, Fin 2, Fin 2, Fin 3, Fin 4, Fin 3] 1 0)
                       (Z_cell [Fin 0, Fin 1, Fin 5, Fin 2, Fin 2, Fin 3, Fin 4, Fin 3] 1 1)"
proof -
  have h: "4 * (3 - 1) \<le> length (replicate 8 NaN)" "length inversion_events = 3 - 1"
    "\<forall>e\<in>set inversion_events. node1 e \<noteq> node2 e \<and> node1 e < 2 * 3 - 1 \<and> node2 e < 2 * 3 - 1"
    "\<forall>a b. a < b \<and> b < 2 * 3 - 1 \<longrightarrow> f_less exact_ops (f_of_index exact_ops a) (f_of_index exact_ops b)"
    by (simp_all add: inversion_events_def exact_ops_def)
  from first_id_less_second[OF h] obtain Z' where
    g: "generateSciPyDendrogram exact_ops True (replicate 8 NaN) inversion_events 3 = Some Z'"
    and r: "\<forall>k<3 - 1. f_less exact_ops (Z_cell Z' k 0) (Z_cell Z' k 1)" by blast
  from g have Z': "Z' = [Fin 0, Fin 1, Fin 5, Fin 2, Fin 2, Fin 3, Fin 4, Fin 3]"
    by (simp add: inversion_run)
  from r[rule_format, of 0] r[rule_format, of 1] show ?thesis
    unfolding Z' by (simp add: inversion_run)
qed

theorem canonical_input_unchanged_witness:
  "generateSciPyDendrogram exact_ops False (replicate 12 NaN) four_point_events 4 =
     Some [Fin 0, Fin 1, Fin 1, Fin 2, Fin 2, Fin 3, Fin 1, Fin 2, Fin 4, Fin 5, Fin 7, Fin 4]"
proof -
  have h: "4 * (4 - 1) \<le> length (replicate 12 NaN)" "length four_point_events = 4 - 1"
    "nondecreasing exact_ops four_point_events" "merge_tree 4 four_point_events"
    "\<forall>e\<in>set four_point_events. node1 e < node2 e"
    by (simp_all add: four_point_events_def exact_ops_def merge_tree_def refs_def)
  from canonical_input_unchanged[OF h] show ?thesis
    by (simp add: four_point_run)
qed

theorem encoder_keeps_engine_order_witness:
  "generateSciPyDendrogram exact_ops True (replicate 8 NaN) inversion_events 3 =
     Some [Fin 0, Fin 1, Fin 5, Fin 2, Fin 2, Fin 3, Fin 4, Fin 3]
   \<and> Z_cell [Fin 0, Fin 1, Fin 5, Fin 2, Fin 2, Fin 3, Fin 4, Fin 3] 0 2 = dist' (inversion_events ! 0)
   \<and> Z_cell [Fin 0, Fin 1, Fin 5, Fin 2, Fin 2, Fin 3, Fin 4, Fin 3] 1 2 = dist' (inversion_events ! 1)"
proof -
  have h: "4 * (3 - 1) \<le> length (replicate 8 NaN)" "length inversion_events = 3 - 1"
    "\<forall>e\<in>set inversion_events. node1 e < 2 * 3 - 1 \<and> node2 e < 2 * 3 - 1"
    by (simp_all add: inversion_events_def)
  from encoder_keeps_engine_order[OF h, of exact_ops] obtain Z' where
    g: "generateSciPyDendrogram exact_ops True (replicate 8 NaN) inversion_events 3 = Some Z'"
    and r: "\<forall>k<3 - 1. Z_cell Z' k 2 = dist' (inversion_events ! k)" by blast
  from g have Z': "Z' = [Fin 0, Fin 1, Fin 5, Fin 2, Fin 2, Fin 3, Fin 4, Fin 3]"
    by (simp add: inversion_run)
  from r[rule_format, of 0] r[rule_format, of 1] show ?thesis
    unfolding Z' by (simp add: inversion_run)
qed

text \<open>
  The claim as written fails on the events of three points whose second merge is closer than
  the first: the rows come out in the engine's order, the second distance below the first.
\<close>

theorem encoder_does_not_sort:
  "generateSciPyDendrogram exact_ops True (replicate 8 NaN) inversion_events 3 =
     Some [Fin 0, Fin 1, Fin 5, Fin 2, Fin 2, Fin 3, Fin 4, Fin 3]
   \<and> f_less exact_ops (Z_cell [Fin 0, Fin 1, Fin 5, Fin 2, Fin 2, Fin 3, Fin 4, Fin 3] 1 2)
                       (Z_cell [Fin 0, Fin 1, Fin 5, Fin 2, Fin 2, Fin 3, Fin 4, Fin 3] 0 2)"
  by (simp add: inversion_run) (simp add: Z_cell_def exact_ops_def)

lemmas engine_eval = two_point_engine_def new_CentroidDissimilarity_def in_range_def
  sqeuclidean_def sq_sum_def basePointer_def extendedPointer_def centroidPointer_def fc_isnan_def
  merge_def merge_step_def exact_ops_def x_sub_def Let_def

lemma two_point_run:
  "run_engine exact_ops two_point_engine
       (new_CentroidDissimilarity exact_ops [Fin 0, Fin 0, Fin 0, Fin 1] 2 2) [] =
     Some (Inr (\<lparr> data = [Fin 0, Fin 0, Fin 0, Fin 1], dimension = 2, count = 2,
                   centroidStorage = [Fin 0, Fin (1 / 2)], members = [1, 1, 2] \<rparr>,
                [\<lparr> node1 = 0, node2 = 1, dist' = Fin 1 \<rparr>]))"
  by (simp add: engine_eval numeral_eq_Suc)

lemma exact_ops_simps:
  "f_add exact_ops = x_add" "f_sub exact_ops = x_sub" "f_mul exact_ops = x_mul"
  "f_div exact_ops = x_div" "f_less exact_ops = x_less" "f_neq exact_ops = x_neq"
  "f_sqrt exact_ops = x_sqrt" "f_half exact_ops = Fin (1 / 2)"
  "f_of_index exact_ops n = Fin (real n)"
  by (simp_all add: exact_ops_def)

lemma exact_env_simps:
  "arith exact_env = exact_ops" "MAX_INDEX exact_env = 2147483647" "can_allocate exact_env n"
  "max_size_float exact_env = 1152921504606846975" "max_size_index exact_env = 1152921504606846975"
  "engine_for exact_env N = two_point_engine"
  by (simp_all add: exact_env_def)

lemma two_point_dendrogram:
  "generateSciPyDendrogram exact_ops True Z [\<lparr> node1 = 0, node2 = 1, dist' = Fin 1 \<rparr>] 2 =
     (if 4 \<le> length Z then Some (Z[0 := Fin 0, 1 := Fin 1, 2 := Fin 1, 3 := Fin 2]) else None)"
  by (simp add: encoder_eval numeral_eq_Suc)

lemma two_point_try:
  "try_block exact_env [Fin 0, Fin 0, Fin 0, Fin 1] 2 2 Z =
     (if 4 \<le> length Z then Some (Inr (Z[0 := Fin 0, 1 := Fin 1, 2 := Fin 1, 3 := Fin 2])) else None)"
  by (simp add: try_block_def vector_alloc_def exact_env_simps two_point_run postprocess_def
      cluster_result_sqrt_def
      two_point_dendrogram[simplified] exact_ops_simps)

lemma two_point_success:
  "fastcluster_compute_centroid_linkage exact_env (Some [Fin 0, Fin 0, Fin 0, Fin 1]) 2 2 (Some (replicate 4 NaN)) 4 =
     Some (FASTCLUSTER_WRAPPER_SUCCESS, Some [Fin 0, Fin 1, Fin 1, Fin 2])"
  by (simp add: fastcluster_compute_centroid_linkage_def exact_env_simps two_point_try)
     (simp add: numeral_eq_Suc)

theorem nan_distance_is_runtime_error_witness:
  "fastcluster_compute_centroid_linkage exact_env (Some [Fin 0, NaN, Fin 0, Fin 1]) 2 2 (Some (replicate 4 NaN)) 4 =
     Some (FASTCLUSTER_WRAPPER_RUNTIME_ERROR, Some (replicate 4 NaN))"
proof -
  have h: "2 \<le> (2::nat)" "1 \<le> (2::nat)" "2 \<le> MAX_INDEX exact_env" "2 \<le> MAX_INDEX exact_env"
    "(2 - 1) * 4 \<le> (4::nat)"
    "can_allocate exact_env ((2 - 1) * 2)" "can_allocate exact_env (2 * 2 - 1)"
    "can_allocate exact_env (2 - 1)"
    by (simp_all add: exact_env_simps)
  have n: "computes_nan (arith exact_env) (engine_for exact_env 2)
             (new_CentroidDissimilarity (arith exact_env) [Fin 0, NaN, Fin 0, Fin 1] 2 2) []"
    unfolding exact_env_simps by (simp add: engine_eval numeral_eq_Suc)
  from nan_distance_is_runtime_error[OF h n] show ?thesis .
qed

theorem dimension_zero_witness:
  "fastcluster_compute_centroid_linkage exact_env (Some []) 2 0 (Some []) 0 =
     Some (FASTCLUSTER_WRAPPER_INVALID_ARGUMENT, Some [])"
  using dimension_zero[of 0 exact_env "Some []" 2 "Some []" 0] by simp

text \<open>No points and dimension 0, both pointers non-null: Success.\<close>

theorem dimension_zero_no_points:
  "fastcluster_compute_centroid_linkage exact_env (Some []) 0 0 (Some []) 0 =
     Some (FASTCLUSTER_WRAPPER_SUCCESS, Some [])"
  by (simp add: fastcluster_compute_centroid_linkage_def)

theorem null_pointer_first_witness:
  "fastcluster_compute_centroid_linkage exact_env None 0 1 (Some []) 0 =
     Some (FASTCLUSTER_WRAPPER_INVALID_ARGUMENT, Some [])
   \<and> fastcluster_compute_centroid_linkage exact_env (Some []) 0 1 None 0 =
     Some (FASTCLUSTER_WRAPPER_INVALID_ARGUMENT, None)"
  using null_pointer_first[of None "Some []" exact_env 0 1 0]
    null_pointer_first[of "Some []" None exact_env 0 1 0] by simp

theorem exceptions_become_statuses_witness:
  "fastcluster_compute_centroid_linkage (failing_env bad_alloc) (Some [Fin 0, Fin 0, Fin 0, Fin 1]) 2 2 (Some (replicate 4 NaN)) 4
     = Some (FASTCLUSTER_WRAPPER_ALLOCATION_FAILURE, Some (replicate 4 NaN))
   \<and> fastcluster_compute_centroid_linkage (failing_env std_exception) (Some [Fin 0, Fin 0, Fin 0, Fin 1]) 2 2 (Some (replicate 4 NaN)) 4
     = Some (FASTCLUSTER_WRAPPER_RUNTIME_ERROR, Some (replicate 4 NaN))
   \<and> fastcluster_compute_centroid_linkage (failing_env non_std_throw) (Some [Fin 0, Fin 0, Fin 0, Fin 1]) 2 2 (Some (replicate 4 NaN)) 4
     = Some (FASTCLUSTER_WRAPPER_UNKNOWN_ERROR, Some (replicate 4 NaN))"
proof -
  have h1: "2 \<le> (2::nat)" "1 \<le> (2::nat)" and h3: "(2 - 1) * 4 \<le> (4::nat)" by simp_all
  have h2: "2 \<le> MAX_INDEX (failing_env e)" "2 \<le> MAX_INDEX (failing_env e)" for e
    by (simp_all add: failing_env_def exact_env_def)
  have t: "try_block (failing_env e) [Fin 0, Fin 0, Fin 0, Fin 1] 2 2 (replicate 4 NaN) = Some (Inl e)" for e
    by (simp add: try_block_def vector_alloc_def failing_env_def exact_env_def)
  from exceptions_become_statuses[OF h1 h2 h3 t, of bad_alloc]
    exceptions_become_statuses[OF h1 h2 h3 t, of std_exception]
    exceptions_become_statuses[OF h1 h2 h3 t, of non_std_throw]
  show ?thesis by simp
qed

theorem output_independent_of_buffer_witness:
  "outcome_of 2 (fastcluster_compute_centroid_linkage exact_env (Some [Fin 0, Fin 0, Fin 0, Fin 1]) 2 2
                   (Some (replicate 4 NaN)) 4)
   = outcome_of 2 (fastcluster_compute_centroid_linkage exact_env (Some [Fin 0, Fin 0, Fin 0, Fin 1]) 2 2
                   (Some (replicate 6 (Fin 9))) 4)
   \<and> outcome_of 2 (fastcluster_compute_centroid_linkage exact_env (Some [Fin 0, Fin 0, Fin 0, Fin 1]) 2 2
                   (Some (replicate 4 NaN)) 4)
     = Some (FASTCLUSTER_WRAPPER_SUCCESS, [Fin 0, Fin 1, Fin 1, Fin 2])"
proof -
  have h: "(4::nat) \<le> length (replicate 4 NaN)" "(4::nat) \<le> length (replicate 6 (Fin 9))" by simp_all
  have c: "\<forall>d' res. run_engine (arith exact_env) (engine_for exact_env 2)
                      (new_CentroidDissimilarity (arith exact_env) [Fin 0, Fin 0, Fin 0, Fin 1] 2 2) []
                        = Some (Inr (d', res)) \<longrightarrow> refers_back 2 res"
    unfolding exact_env_simps using two_point_run by simp
  from output_independent_of_buffer[OF h c] show ?thesis
    by (simp add: two_point_success outcome_of_def)
qed

lemma sqrt_100: "sqrt 100 = 10"
  by (rule real_sqrt_unique) (simp_all add: power2_eq_square)

lemma sqrt_81: "sqrt 81 = 9"
  by (rule real_sqrt_unique) (simp_all add: power2_eq_square)

lemma triangle_run:
  "run_engine exact_ops three_point_engine (new_CentroidDissimilarity exact_ops triangle 3 2) [] =
     Some (Inr (\<lparr> data = triangle, dimension = 2, count = 3,
                   centroidStorage = [Fin 5, Fin 0, Fin 5, Fin 3], members = [1, 1, 1, 2, 3] \<rparr>,
                [\<lparr> node1 = 0, node2 = 1, dist' = Fin 100 \<rparr>,
                 \<lparr> node1 = 2, node2 = 3, dist' = Fin 81 \<rparr>]))"
  by (simp add: three_point_engine_def triangle_def new_CentroidDissimilarity_def in_range_def
      sqeuclidean_def sqeuclidean_extended_def sq_sum_def basePointer_def extendedPointer_def
      centroidPointer_def fc_isnan_def merge_def merge_step_def exact_ops_simps x_sub_def Let_def
      numeral_eq_Suc)

lemma triangle_env_simps:
  "arith triangle_env = exact_ops" "MAX_INDEX triangle_env = 2147483647" "can_allocate triangle_env n"
  "max_size_float triangle_env = 1152921504606846975"
  "max_size_index triangle_env = 1152921504606846975"
  "engine_for triangle_env N = three_point_engine"
  by (simp_all add: triangle_env_def exact_env_def)

lemma triangle_dendrogram:
  "generateSciPyDendrogram exact_ops True (replicate 8 NaN)
     [\<lparr> node1 = 0, node2 = 1, dist' = Fin 10 \<rparr>, \<lparr> node1 = 2, node2 = 3, dist' = Fin 9 \<rparr>] 3 =
     Some [Fin 0, Fin 1, Fin 10, Fin 2, Fin 2, Fin 3, Fin 9, Fin 3]"
  by (simp add: encoder_eval numeral_eq_Suc)

lemma triangle_try:
  "try_block triangle_env triangle 3 2 (replicate 8 NaN) =
     Some (Inr [Fin 0, Fin 1, Fin 10, Fin 2, Fin 2, Fin 3, Fin 9, Fin 3])"
  by (simp add: try_block_def vector_alloc_def triangle_env_simps triangle_run postprocess_def
      cluster_result_sqrt_def triangle_dendrogram[simplified] exact_ops_simps sqrt_100 sqrt_81)

lemma triangle_success:
  "fastcluster_compute_centroid_linkage triangle_env (Some triangle) 3 2 (Some (replicate 8 NaN)) 8 =
     Some (FASTCLUSTER_WRAPPER_SUCCESS, Some [Fin 0, Fin 1, Fin 10, Fin 2, Fin 2, Fin 3, Fin 9, Fin 3])"
  by (simp add: fastcluster_compute_centroid_linkage_def triangle_env_simps triangle_try)

text \<open>
  Three points, the third nearer to the centroid of the first two than they are to each other:
  the call succeeds, the second distance is below the first, and the sizes are 2 and 3.
\<close>

theorem row_sizes_of_call_witness:
  "fastcluster_compute_centroid_linkage triangle_env (Some triangle) 3 2 (Some (replicate 8 NaN)) 8 =
     Some (FASTCLUSTER_WRAPPER_SUCCESS, Some [Fin 0, Fin 1, Fin 10, Fin 2, Fin 2, Fin 3, Fin 9, Fin 3])
   \<and> Z_cell [Fin 0, Fin 1, Fin 10, Fin 2, Fin 2, Fin 3, Fin 9, Fin 3] 0 3 = Fin 2
   \<and> Z_cell [Fin 0, Fin 1, Fin 10, Fin 2, Fin 2, Fin 3, Fin 9, Fin 3] (3 - 2) 3
       = f_of_index (arith triangle_env) 3"
proof -
  have h: "2 \<le> (3::nat)" "(8::nat) \<le> length (replicate 8 NaN)" by simp_all
  have c: "\<forall>d' res. run_engine (arith triangle_env) (engine_for triangle_env 3)
                      (new_CentroidDissimilarity (arith triangle_env) triangle 3 2) []
                        = Some (Inr (d', res)) \<longrightarrow> merge_tree 3 res"
    unfolding triangle_env_simps using triangle_run by (simp add: merge_tree_def refs_def)
  have ex: "\<forall>a b. a + b \<le> 3 \<longrightarrow>
      f_add (arith triangle_env) (f_of_index (arith triangle_env) a) (f_of_index (arith triangle_env) b)
        = f_of_index (arith triangle_env) (a + b)"
    by (simp add: triangle_env_simps exact_ops_simps)
  from row_sizes_of_call[OF h(1) triangle_success h(2) c ex]
  have "Z_cell [Fin 0, Fin 1, Fin 10, Fin 2, Fin 2, Fin 3, Fin 9, Fin 3] (3 - 2) 3
       = f_of_index (arith triangle_env) 3" by blast
  moreover have "Z_cell [Fin 0, Fin 1, Fin 10, Fin 2, Fin 2, Fin 3, Fin 9, Fin 3] 0 3 = Fin 2"
    by (simp add: Z_cell_def)
  ultimately show ?thesis using triangle_success by blast
qed

end
